theory Spec2Isabelle
  imports Main "HOL-Library.Sublist"
begin

section \<open>C strings\<close>

text \<open>
  A C string is modelled by the list of its bytes before the terminating NUL. A pointer
  into a string is the suffix that starts at it, and a NULL pointer is \<open>None\<close>.
  The characters that cannot be written inside an Isabelle string literal get a name.
\<close>

abbreviation dq :: char where "dq \<equiv> CHR 0x22"
abbreviation bsl :: char where "bsl \<equiv> CHR 0x5C"
abbreviation nl :: char where "nl \<equiv> CHR 0x0A"
abbreviation cr :: char where "cr \<equiv> CHR 0x0D"
abbreviation tab :: char where "tab \<equiv> CHR 0x09"
abbreviation nul :: char where "nul \<equiv> CHR 0x00"

text \<open>The bytes of a buffer seen as a C string: everything before the first NUL.\<close>

definition cstr :: "string \<Rightarrow> string" where
  "cstr bytes = takeWhile (\<lambda>c. c \<noteq> nul) bytes"

text \<open>\<open>snprintf(buf, size, ...)\<close> keeps at most \<open>size - 1\<close> bytes of the formatted text.\<close>

definition snprintf :: "nat \<Rightarrow> string \<Rightarrow> string" where
  "snprintf n s = take (n - 1) s"

text \<open>\<open>strstr\<close>: the suffix at the first occurrence of the pattern.\<close>

fun strstr :: "string \<Rightarrow> string \<Rightarrow> string option" where
  "strstr [] pat = (if pat = [] then Some [] else None)"
| "strstr (c # s) pat = (if prefix pat (c # s) then Some (c # s) else strstr s pat)"

text \<open>\<open>strchr\<close>, for a character other than NUL: the suffix at its first occurrence.\<close>

fun strchr :: "string \<Rightarrow> char \<Rightarrow> string option" where
  "strchr [] c = None"
| "strchr (x # s) c = (if x = c then Some (x # s) else strchr s c)"

text \<open>
  \<open>main\<close> calls \<open>setlocale\<close> with the empty locale name, so \<open>isalnum\<close>, \<open>tolower\<close> and
  \<open>strcasecmp\<close> follow the character classes and the case table of the locale of the
  process. A locale is modelled by these two functions on bytes.
\<close>

record Locale =
  isalnum :: "char \<Rightarrow> bool"
  tolower :: "char \<Rightarrow> char"

text \<open>The C locale: ASCII letters and digits, ASCII case.\<close>

definition upper_letters :: string where
  "upper_letters = ''ABCDEFGHIJKLMNOPQRSTUVWXYZ''"

definition lower_letters :: string where
  "lower_letters = ''abcdefghijklmnopqrstuvwxyz''"

definition c_locale :: Locale where
  "c_locale =
     \<lparr>isalnum = (\<lambda>c. c \<in> set (upper_letters @ lower_letters @ ''0123456789'')),
      tolower = (\<lambda>c. case map_of (zip upper_letters lower_letters) c of
                         Some l \<Rightarrow> l | None \<Rightarrow> c)\<rparr>"

text \<open>
  \<open>strcmp\<close> and \<open>strcasecmp\<close> return the sign of the comparison at the first
  difference (bytes compared as unsigned); the program only tests the result against 0.
  \<open>strcasecmp\<close> compares the bytes after the \<open>tolower\<close> of the locale.
\<close>

fun strcmp :: "string \<Rightarrow> string \<Rightarrow> int" where
  "strcmp [] [] = 0"
| "strcmp [] (b # t) = -1"
| "strcmp (a # s) [] = 1"
| "strcmp (a # s) (b # t) =
     (if a = b then strcmp s t
      else if (of_char a :: nat) < of_char b then -1 else 1)"

fun strcasecmp :: "Locale \<Rightarrow> string \<Rightarrow> string \<Rightarrow> int" where
  "strcasecmp loc [] [] = 0"
| "strcasecmp loc [] (b # t) = -1"
| "strcasecmp loc (a # s) [] = 1"
| "strcasecmp loc (a # s) (b # t) =
     (if tolower loc a = tolower loc b then strcasecmp loc s t
      else if (of_char (tolower loc a) :: nat) < of_char (tolower loc b) then -1 else 1)"

section \<open>Persistence codec\<close>

subsection \<open>\<open>json_escape_string\<close>\<close>

text \<open>What one pass of the loop body appends for the byte \<open>c\<close>.\<close>

definition escape_char :: "char \<Rightarrow> string" where
  "escape_char c =
     (if c = dq \<or> c = bsl then [bsl, c]
      else if c = nl then [bsl, CHR ''n'']
      else if c = cr then [bsl, CHR ''r'']
      else if c = tab then [bsl, CHR ''t'']
      else [c])"

text \<open>
  The loop \<open>for (i = 0; i < len && j < alloc - 2; i++)\<close>: \<open>lim\<close> is \<open>alloc - 2\<close>,
  \<open>j\<close> the number of bytes written so far, the list the bytes not yet read.
\<close>

fun escape_loop :: "nat \<Rightarrow> nat \<Rightarrow> string \<Rightarrow> string" where
  "escape_loop lim j [] = []"
| "escape_loop lim j (c # s) =
     (if j < lim then escape_char c @ escape_loop lim (j + length (escape_char c)) s
      else [])"

text \<open>
  A NULL argument gives the empty string. \<open>alloc\<close> is \<open>len * 2 + 1\<close>; for the empty
  string \<open>alloc - 2\<close> wraps around in \<open>size_t\<close>, and the loop does not run anyway.
\<close>

definition json_escape_string :: "string option \<Rightarrow> string" where
  "json_escape_string s =
     (case s of None \<Rightarrow> []
      | Some str \<Rightarrow> escape_loop (length str * 2 + 1 - 2) 0 str)"

subsection \<open>\<open>json_get_string\<close>\<close>

text \<open>
  The scan after the opening quote: it stops at the end of the string or at a double
  quote, and a backslash that is not the last byte takes the next byte with it. The
  result is the bytes between \<open>start\<close> and the place where the scan stops.
\<close>

fun scan_value :: "string \<Rightarrow> string" where
  "scan_value [] = []"
| "scan_value [c] = (if c = dq then [] else [c])"
| "scan_value (c # d # s) =
     (if c = dq then []
      else if c = bsl then c # d # scan_value s
      else c # scan_value (d # s))"

text \<open>The unescape loop over those bytes; a backslash in last position is kept.\<close>

fun unescape :: "string \<Rightarrow> string" where
  "unescape [] = []"
| "unescape [c] = [c]"
| "unescape (c # d # s) =
     (if c = bsl then
        (if d = CHR ''n'' then nl
         else if d = CHR ''r'' then cr
         else if d = CHR ''t'' then tab
         else d) # unescape s
      else c # unescape (d # s))"

definition skip_separators :: "string \<Rightarrow> string" where
  "skip_separators p = dropWhile (\<lambda>c. c = CHR '' '' \<or> c = CHR '':'' \<or> c = tab) p"

definition json_get_string :: "string \<Rightarrow> string \<Rightarrow> string option" where
  "json_get_string json key =
     (let pattern = snprintf 256 (dq # key @ [dq]) in
      case strstr json pattern of
        None \<Rightarrow> None
      | Some p \<Rightarrow>
          (case skip_separators (drop (length pattern) p) of
             [] \<Rightarrow> None
           | c # start \<Rightarrow> if c \<noteq> dq then None else Some (unescape (scan_value start))))"

subsection \<open>The object scan shared by both decoders\<close>

text \<open>
  Both \<open>load_playlist_songs\<close> and \<open>load_playlists\<close> run the same loop: while fewer
  than \<open>limit\<close> entries are stored, find the next \<open>{\<close>, the first \<open>}\<close> after it, copy
  the bytes between them (both included), read the entry from the copy, store it when
  it is accepted, and go on after the \<open>}\<close>. \<open>entry\<close> is the part of the body that
  reads one object; \<open>acc\<close> holds the entries stored so far.
\<close>

function objects_loop :: "nat \<Rightarrow> (string \<Rightarrow> 'a option) \<Rightarrow> string \<Rightarrow> 'a list \<Rightarrow> 'a list" where
  "objects_loop limit entry p acc =
     (if length acc < limit then
        (case strchr p (CHR ''{'') of
           None \<Rightarrow> acc
         | Some obj_start \<Rightarrow>
             (case strchr obj_start (CHR ''}'') of
                None \<Rightarrow> acc
              | Some obj_end \<Rightarrow>
                  (let obj_len = length obj_start - length obj_end + 1;
                       obj = take obj_len obj_start
                   in objects_loop limit entry (tl obj_end)
                        (case entry obj of Some e \<Rightarrow> acc @ [e] | None \<Rightarrow> acc))))
      else acc)"
  by pat_completeness auto
termination
proof (relation "measure (\<lambda>(limit, entry, p, acc). length p)")
  show "wf (measure (\<lambda>(limit, entry, p, acc). length p))" by simp
next
  fix limit :: nat and entry :: "string \<Rightarrow> 'a option" and p :: string and acc :: "'a list"
    and obj_start obj_end :: string and obj_len :: nat and obj :: string
  assume a: "strchr p (CHR ''{'') = Some obj_start"
    and b: "strchr obj_start (CHR ''}'') = Some obj_end"
  have len: "length r \<le> length s \<and> r \<noteq> []" if "strchr s c = Some r" for s r c
    using that by (induction s) (auto split: if_splits)
  from len[OF a] len[OF b]
  have "length (tl obj_end) < length p" by (cases obj_end) auto
  then show "((limit, entry, tl obj_end,
                case entry obj of None \<Rightarrow> acc | Some e \<Rightarrow> acc @ [e]),
               (limit, entry, p, acc))
             \<in> measure (\<lambda>(limit, entry, p, acc). length p)"
    by simp
qed

declare objects_loop.simps [simp del]

text \<open>
  The objects that the loop copies one after the other when no limit stops it.
\<close>

function scan_objects :: "string \<Rightarrow> string list" where
  "scan_objects p =
     (case strchr p (CHR ''{'') of
        None \<Rightarrow> []
      | Some obj_start \<Rightarrow>
          (case strchr obj_start (CHR ''}'') of
             None \<Rightarrow> []
           | Some obj_end \<Rightarrow>
               take (length obj_start - length obj_end + 1) obj_start
                 # scan_objects (tl obj_end)))"
  by pat_completeness auto
termination
proof (relation "measure length")
  show "wf (measure length)" by simp
next
  fix p obj_start obj_end :: string
  assume a: "strchr p (CHR ''{'') = Some obj_start"
    and b: "strchr obj_start (CHR ''}'') = Some obj_end"
  have len: "length r \<le> length s \<and> r \<noteq> []" if "strchr s c = Some r" for s r c
    using that by (induction s) (auto split: if_splits)
  from len[OF a] len[OF b]
  have "length (tl obj_end) < length p" by (cases obj_end) auto
  then show "(tl obj_end, p) \<in> measure length" by simp
qed

declare scan_objects.simps [simp del]

section \<open>Data model\<close>

definition MAX_RESULTS :: nat where "MAX_RESULTS = 50"
definition MAX_PLAYLISTS :: nat where "MAX_PLAYLISTS = 50"
definition MAX_PLAYLIST_ITEMS :: nat where "MAX_PLAYLIST_ITEMS = 500"

text \<open>
  The three strings of a \<open>Song\<close> are pointers that the code tests against NULL, so they
  are options. Allocation is taken to succeed, so the name and the file name of a
  playlist in use are never NULL and are plain strings.
\<close>

record Song =
  title :: "string option"
  video_id :: "string option"
  url :: "string option"
  duration :: int

text \<open>
  The array \<open>items\<close> together with \<open>count\<close> is the list of the first \<open>count\<close>
  slots; \<open>count\<close> is its length.
\<close>

record Playlist =
  name :: string
  filename :: string
  items :: "Song list"

text \<open>
  The fields of \<open>AppState\<close> that the library store and the playback session read or
  write. \<open>search_results\<close> with \<open>search_count\<close> and \<open>playlists\<close> with
  \<open>playlist_count\<close> are lists whose lengths are the counts. The fields left out (the
  query, the view, the scroll offsets, the selections of the other screens and
  \<open>config_dir\<close>) are used by the screens only.
\<close>

record AppState =
  search_results :: "Song list"
  search_selected :: int
  playlists :: "Playlist list"
  playlist_song_selected :: int
  playing_index :: int
  playing_from_playlist :: bool
  playing_playlist_idx :: int
  paused :: bool
  playback_started :: int
  playlists_dir :: string
  playlists_index :: string

definition search_count :: "AppState \<Rightarrow> int" where
  "search_count st = int (length (search_results st))"

definition playlist_count :: "AppState \<Rightarrow> int" where
  "playlist_count st = int (length (playlists st))"

text \<open>
  \<open>st->playlists[i].count\<close> for \<open>i \<ge> 0\<close>. A slot at or after \<open>playlist_count\<close> is
  zeroed (by the initialiser, by \<open>delete_playlist\<close> and by \<open>free_all_playlists\<close>), so
  its count is 0.
\<close>

definition slot_count :: "AppState \<Rightarrow> int \<Rightarrow> int" where
  "slot_count st i =
     (if nat i < length (playlists st) then int (length (items (playlists st ! nat i))) else 0)"

section \<open>Files\<close>

text \<open>
  The part of the file system the program touches: the regular files with their bytes,
  the directories, and the paths at which opening the file for writing would fail.
\<close>

record FileSystem =
  files :: "string \<rightharpoonup> string"
  dirs :: "string set"
  write_denied :: "string set"

definition file_exists :: "FileSystem \<Rightarrow> string \<Rightarrow> bool" where
  "file_exists fs path = (files fs path \<noteq> None \<or> path \<in> dirs fs)"

text \<open>
  \<open>fopen\<close> for writing, the \<open>fprintf\<close> calls and \<open>fclose\<close>: the file gets the new text,
  and when it cannot be opened nothing is written.
\<close>

definition write_file :: "FileSystem \<Rightarrow> string \<Rightarrow> string \<Rightarrow> FileSystem" where
  "write_file fs path text =
     (if path \<in> write_denied fs then fs else fs\<lparr>files := (files fs)(path \<mapsto> text)\<rparr>)"

definition unlink :: "FileSystem \<Rightarrow> string \<Rightarrow> FileSystem" where
  "unlink fs path = fs\<lparr>files := (files fs)(path := None)\<rparr>"

section \<open>Playlist persistence\<close>

text \<open>
  \<open>sanitize_filename\<close>. The second guard of its loop, \<open>j < len\<close>, never fails, since
  \<open>j \<le> i\<close>.
\<close>

fun sanitize_loop :: "Locale \<Rightarrow> string \<Rightarrow> string" where
  "sanitize_loop loc [] = []"
| "sanitize_loop loc (c # s) =
     (if isalnum loc c \<or> c = CHR ''-'' \<or> c = CHR ''_''
      then tolower loc c # sanitize_loop loc s
      else if c = CHR '' '' then CHR ''_'' # sanitize_loop loc s
      else sanitize_loop loc s)"

definition sanitize_filename :: "Locale \<Rightarrow> string \<Rightarrow> string" where
  "sanitize_filename loc nm = sanitize_loop loc nm @ ''.json''"

text \<open>The path of a playlist file, as both \<open>snprintf(path, sizeof(path), ...)\<close> build it.\<close>

definition playlist_path :: "AppState \<Rightarrow> Playlist \<Rightarrow> string" where
  "playlist_path st pl = snprintf 1024 (playlists_dir st @ ''/'' @ filename pl)"

text \<open>
  One line of the index per playlist: four spaces, the object, the separator (a comma
  except after the last playlist) and a newline.
\<close>

definition playlist_object :: "Playlist \<Rightarrow> string" where
  "playlist_object pl =
     ''{'' @ [dq] @ ''name'' @ [dq] @ '': '' @ [dq] @ json_escape_string (Some (name pl)) @ [dq]
       @ '', '' @ [dq] @ ''filename'' @ [dq] @ '': '' @ [dq]
       @ json_escape_string (Some (filename pl)) @ [dq] @ ''}''"

definition index_line :: "Playlist \<Rightarrow> string \<Rightarrow> string" where
  "index_line pl sep = ''    '' @ playlist_object pl @ sep @ [nl]"

fun index_lines :: "Playlist list \<Rightarrow> string" where
  "index_lines [] = []"
| "index_lines [pl] = index_line pl []"
| "index_lines (pl # q # r) = index_line pl '','' @ index_lines (q # r)"

definition index_text :: "AppState \<Rightarrow> string" where
  "index_text st =
     ''{'' @ [nl] @ ''  '' @ [dq] @ ''playlists'' @ [dq] @ '': ['' @ [nl]
       @ index_lines (playlists st) @ ''  ]'' @ [nl] @ ''}'' @ [nl]"

definition save_playlists_index :: "AppState \<Rightarrow> FileSystem \<Rightarrow> FileSystem" where
  "save_playlists_index st fs = write_file fs (playlists_index st) (index_text st)"

text \<open>
  One line of a playlist file per song, built like a line of the index. The playlist
  name is written as it is.
\<close>

definition song_object :: "Song \<Rightarrow> string" where
  "song_object s =
     ''{'' @ [dq] @ ''title'' @ [dq] @ '': '' @ [dq] @ json_escape_string (title s) @ [dq]
       @ '', '' @ [dq] @ ''video_id'' @ [dq] @ '': '' @ [dq]
       @ json_escape_string (video_id s) @ [dq] @ ''}''"

definition song_line :: "Song \<Rightarrow> string \<Rightarrow> string" where
  "song_line s sep = ''    '' @ song_object s @ sep @ [nl]"

fun song_lines :: "Song list \<Rightarrow> string" where
  "song_lines [] = []"
| "song_lines [s] = song_line s []"
| "song_lines (s # q # r) = song_line s '','' @ song_lines (q # r)"

definition playlist_text :: "Playlist \<Rightarrow> string" where
  "playlist_text pl =
     ''{'' @ [nl] @ ''  '' @ [dq] @ ''name'' @ [dq] @ '': '' @ [dq] @ name pl @ [dq] @ '','' @ [nl]
       @ ''  '' @ [dq] @ ''songs'' @ [dq] @ '': ['' @ [nl]
       @ song_lines (items pl) @ ''  ]'' @ [nl] @ ''}'' @ [nl]"

definition save_playlist :: "AppState \<Rightarrow> FileSystem \<Rightarrow> int \<Rightarrow> FileSystem" where
  "save_playlist st fs idx =
     (if idx < 0 \<or> idx \<ge> playlist_count st then fs
      else let pl = playlists st ! nat idx
           in write_file fs (playlist_path st pl) (playlist_text pl))"

text \<open>The URL of a song, built in a buffer of 256 bytes.\<close>

definition song_url :: "string \<Rightarrow> string" where
  "song_url vid = snprintf 256 (''https://www.youtube.com/watch?v='' @ vid)"

text \<open>What the body of the song loop makes of one object.\<close>

definition song_of_object :: "string \<Rightarrow> Song option" where
  "song_of_object obj =
     (case (json_get_string obj ''title'', json_get_string obj ''video_id'') of
        (Some t, Some v) \<Rightarrow>
          if v \<noteq> [] then
            Some \<lparr>title = Some t, video_id = Some v, url = Some (song_url v), duration = 0\<rparr>
          else None
      | _ \<Rightarrow> None)"

text \<open>
  The parse of \<open>load_playlist_songs\<close>, from the content of the file (a C string) to the
  songs stored.
\<close>

definition parse_songs :: "string \<Rightarrow> Song list" where
  "parse_songs content =
     (case strstr content ([dq] @ ''songs'' @ [dq]) of
        None \<Rightarrow> []
      | Some p \<Rightarrow>
          (case strchr p (CHR ''['') of
             None \<Rightarrow> []
           | Some q \<Rightarrow> objects_loop MAX_PLAYLIST_ITEMS song_of_object q []))"

text \<open>
  Reading a whole file: NULL when it cannot be opened, when it is empty or when it is
  larger than 1 MiB; otherwise its bytes up to the first NUL.
\<close>

definition read_content :: "FileSystem \<Rightarrow> string \<Rightarrow> string option" where
  "read_content fs path =
     (case files fs path of
        None \<Rightarrow> None
      | Some bytes \<Rightarrow>
          if length bytes \<le> 0 \<or> length bytes > 1024 * 1024 then None
          else Some (cstr bytes))"

definition set_items :: "AppState \<Rightarrow> nat \<Rightarrow> Song list \<Rightarrow> AppState" where
  "set_items st i songs =
     st\<lparr>playlists := (playlists st)[i := (playlists st ! i)\<lparr>items := songs\<rparr>]\<rparr>"

definition load_playlist_songs :: "AppState \<Rightarrow> FileSystem \<Rightarrow> int \<Rightarrow> AppState" where
  "load_playlist_songs st fs idx =
     (if idx < 0 \<or> idx \<ge> playlist_count st then st
      else let pl = playlists st ! nat idx
           in case read_content fs (playlist_path st pl) of
                None \<Rightarrow> set_items st (nat idx) []
              | Some content \<Rightarrow> set_items st (nat idx) (parse_songs content))"

text \<open>What the body of the index loop makes of one object.\<close>

definition playlist_of_object :: "string \<Rightarrow> Playlist option" where
  "playlist_of_object obj =
     (case (json_get_string obj ''name'', json_get_string obj ''filename'') of
        (Some n, Some f) \<Rightarrow>
          if n \<noteq> [] \<and> f \<noteq> [] then Some \<lparr>name = n, filename = f, items = []\<rparr> else None
      | _ \<Rightarrow> None)"

definition parse_playlists :: "string \<Rightarrow> Playlist list" where
  "parse_playlists content =
     (case strstr content ([dq] @ ''playlists'' @ [dq]) of
        None \<Rightarrow> []
      | Some p \<Rightarrow>
          (case strchr p (CHR ''['') of
             None \<Rightarrow> []
           | Some q \<Rightarrow> objects_loop MAX_PLAYLISTS playlist_of_object q []))"

definition load_playlists :: "AppState \<Rightarrow> FileSystem \<Rightarrow> AppState" where
  "load_playlists st fs =
     (case read_content fs (playlists_index st) of
        None \<Rightarrow> st\<lparr>playlists := []\<rparr>
      | Some content \<Rightarrow> st\<lparr>playlists := parse_playlists content\<rparr>)"

section \<open>Library store\<close>

text \<open>The decimal digits of a count, as \<open>%d\<close> prints them.\<close>

fun decimal :: "nat \<Rightarrow> string" where
  "decimal n =
     (if n < 10 then [''0123456789'' ! n]
      else decimal (n div 10) @ [''0123456789'' ! (n mod 10)])"

declare decimal.simps [simp del]

text \<open>
  \<open>create_playlist\<close>, in the locale \<open>loc\<close> of the process, returns the new index,
  -1 for a full library or an empty or NULL name, and -2 for a name already in use. Each
  of its two loops returns or breaks at the first match, so only the existence of a
  match matters.
\<close>

definition create_playlist ::
  "Locale \<Rightarrow> AppState \<Rightarrow> FileSystem \<Rightarrow> string option \<Rightarrow> int \<times> AppState \<times> FileSystem" where
  "create_playlist loc st fs name_arg =
     (if playlist_count st \<ge> int MAX_PLAYLISTS then (-1, st, fs)
      else case name_arg of
        None \<Rightarrow> (-1, st, fs)
      | Some nm \<Rightarrow>
          if nm = [] then (-1, st, fs)
          else if list_ex (\<lambda>pl. strcasecmp loc (name pl) nm = 0) (playlists st)
          then (-2, st, fs)
          else
            let fname = sanitize_filename loc nm;
                fname' =
                  (if list_ex (\<lambda>pl. strcmp (filename pl) fname = 0) (playlists st)
                   then snprintf (length fname + 10)
                          (decimal (nat (playlist_count st)) @ ''_'' @ fname)
                   else fname);
                idx = playlist_count st;
                st' = st\<lparr>playlists :=
                        playlists st @ [\<lparr>name = nm, filename = fname', items = []\<rparr>]\<rparr>;
                fs1 = save_playlists_index st' fs;
                fs2 = save_playlist st' fs1 idx
            in (idx, st', fs2))"

text \<open>
  The loop \<open>for (i = idx; i < count - 1; i++) a[i] = a[i + 1]\<close> of \<open>delete_playlist\<close>,
  on the list of all \<open>n\<close> slots in use.
\<close>

function shift_down :: "'a list \<Rightarrow> nat \<Rightarrow> nat \<Rightarrow> 'a list" where
  "shift_down a i n = (if i + 1 < n then shift_down (a[i := a ! (i + 1)]) (i + 1) n else a)"
  by pat_completeness auto
termination
  by (relation "measure (\<lambda>(a, i, n). n - i)") auto

declare shift_down.simps [simp del]

text \<open>
  \<open>delete_playlist\<close>: the file is unlinked, the slots after \<open>idx\<close> move down, the count
  drops by one (the last slot, now past the count, is zeroed) and the index is saved.
\<close>

definition delete_playlist ::
  "AppState \<Rightarrow> FileSystem \<Rightarrow> int \<Rightarrow> bool \<times> AppState \<times> FileSystem" where
  "delete_playlist st fs idx =
     (if idx < 0 \<or> idx \<ge> playlist_count st then (False, st, fs)
      else
        let fs1 = unlink fs (playlist_path st (playlists st ! nat idx));
            n = length (playlists st);
            st' = st\<lparr>playlists := take (n - 1) (shift_down (playlists st) (nat idx) n)\<rparr>;
            fs2 = save_playlists_index st' fs1
        in (True, st', fs2))"

text \<open>
  \<open>add_song_to_playlist\<close>. The song is a pointer, NULL being \<open>None\<close>. The duplicate
  loop returns at the first stored song with the same id.
\<close>

definition same_video_id :: "string \<Rightarrow> Song \<Rightarrow> bool" where
  "same_video_id vid s = (case video_id s of None \<Rightarrow> False | Some v \<Rightarrow> strcmp v vid = 0)"

definition add_song_to_playlist ::
  "AppState \<Rightarrow> FileSystem \<Rightarrow> int \<Rightarrow> Song option \<Rightarrow> bool \<times> AppState \<times> FileSystem" where
  "add_song_to_playlist st fs playlist_idx song =
     (if playlist_idx < 0 \<or> playlist_idx \<ge> playlist_count st then (False, st, fs)
      else case song of
        None \<Rightarrow> (False, st, fs)
      | Some sg \<Rightarrow>
          (case video_id sg of
             None \<Rightarrow> (False, st, fs)
           | Some vid \<Rightarrow>
               let st1 =
                     (if length (items (playlists st ! nat playlist_idx)) = 0
                         \<and> file_exists fs (playlists_dir st)
                      then load_playlist_songs st fs playlist_idx else st);
                   pl = playlists st1 ! nat playlist_idx
               in if length (items pl) \<ge> MAX_PLAYLIST_ITEMS then (False, st1, fs)
                  else if list_ex (same_video_id vid) (items pl) then (False, st1, fs)
                  else
                    let new_song =
                          \<lparr>title = Some (case title sg of Some t \<Rightarrow> t | None \<Rightarrow> ''Unknown''),
                           video_id = Some vid, url = Some (song_url vid),
                           duration = duration sg\<rparr>;
                        st2 = set_items st1 (nat playlist_idx) (items pl @ [new_song])
                    in (True, st2, save_playlist st2 fs playlist_idx)))"

section \<open>Player channel\<close>

text \<open>
  The two globals \<open>mpv_pid\<close> and \<open>mpv_ipc_fd\<close>, and what the program can observe of
  the player and of the operating system:
  \<^item> \<open>socket_file\<close>: the socket path exists;
  \<^item> \<open>listening\<close>: a player accepts connections on it;
  \<^item> \<open>incoming\<close>: the bytes the player has written to the connection and the program
    has not read yet, and \<open>peer_closed\<close>: the player has closed its end;
  \<^item> \<open>sent\<close>: the bytes written to the player, in order;
  \<^item> \<open>new_fd\<close>: what \<open>socket\<close> returns, \<open>fork_result\<close>: what \<open>fork\<close> returns in the
    parent, \<open>launch_works\<close>: a launched player creates its socket within the 100 polls.
\<close>

record Player =
  mpv_pid :: int
  mpv_ipc_fd :: int
  socket_file :: bool
  listening :: bool
  incoming :: string
  peer_closed :: bool
  sent :: string
  new_fd :: int
  fork_result :: int
  launch_works :: bool

text \<open>Closing the connection loses the bytes not read yet.\<close>

definition mpv_disconnect :: "Player \<Rightarrow> Player" where
  "mpv_disconnect p = (if mpv_ipc_fd p \<ge> 0 then p\<lparr>mpv_ipc_fd := -1, incoming := []\<rparr> else p)"

definition observe_cmd :: string where
  "observe_cmd =
     ''{'' @ [dq] @ ''command'' @ [dq] @ '':['' @ [dq] @ ''observe_property'' @ [dq] @ '',1,''
       @ [dq] @ ''eof-reached'' @ [dq] @ '']}'' @ [nl]"

definition mpv_connect :: "Player \<Rightarrow> bool \<times> Player" where
  "mpv_connect p =
     (if mpv_ipc_fd p \<ge> 0 then (True, p)
      else if \<not> socket_file p then (False, p)
      else if new_fd p < 0 then (False, p)
      else if \<not> listening p then (False, p)
      else (True, p\<lparr>mpv_ipc_fd := new_fd p, incoming := [], peer_closed := False,
                     sent := sent p @ observe_cmd\<rparr>))"

definition mpv_send_command :: "Player \<Rightarrow> string \<Rightarrow> Player" where
  "mpv_send_command p cmd =
     (case mpv_connect p of
        (False, p') \<Rightarrow>
          if new_fd p' < 0 then p'
          else if socket_file p' \<and> listening p' then p'\<lparr>sent := sent p' @ cmd @ [nl]\<rparr>
          else p'
      | (True, p') \<Rightarrow> p'\<lparr>sent := sent p' @ cmd @ [nl]\<rparr>)"

definition escape_url_char :: "char \<Rightarrow> string" where
  "escape_url_char c = (if c = dq \<or> c = bsl then [bsl, c] else [c])"

definition mpv_load_url :: "Player \<Rightarrow> string \<Rightarrow> Player" where
  "mpv_load_url p u =
     (let escaped = [dq] @ concat (map escape_url_char u) @ [dq];
          cmd = snprintf 4096
                  (''{'' @ [dq] @ ''command'' @ [dq] @ '':['' @ [dq] @ ''loadfile'' @ [dq] @ '',''
                     @ escaped @ '','' @ [dq] @ ''replace'' @ [dq] @ '']}'')
      in mpv_send_command p cmd)"

definition mpv_start_if_needed :: "Player \<Rightarrow> Player" where
  "mpv_start_if_needed p =
     (let (connected, p0) = (if socket_file p then mpv_connect p else (False, p))
      in if connected then p0
         else
           let p1 = mpv_disconnect (p0\<lparr>socket_file := False\<rparr>)
           in if fork_result p1 > 0 then
                (let p2 = p1\<lparr>mpv_pid := fork_result p1\<rparr>
                 in if launch_works p2
                    then snd (mpv_connect (p2\<lparr>socket_file := True, listening := True\<rparr>))
                    else p2)
              else p1)"

text \<open>
  A non-blocking \<open>read\<close> of at most \<open>cap\<close> bytes: some bytes, or nothing yet (the call
  returns -1 and sets \<open>errno\<close> to \<open>EAGAIN\<close>), or the end of a connection that the player
  closed (the call returns 0 and leaves \<open>errno\<close> as it was).
\<close>

datatype read_result = Data string | Again | Closed

definition read_channel :: "Player \<Rightarrow> nat \<Rightarrow> read_result \<times> Player" where
  "read_channel p cap =
     (if incoming p \<noteq> [] then (Data (take cap (incoming p)), p\<lparr>incoming := drop cap (incoming p)\<rparr>)
      else if peer_closed p then (Closed, p)
      else (Again, p))"

definition end_file_marker :: string where
  "end_file_marker = [dq] @ ''event'' @ [dq] @ '':'' @ [dq] @ ''end-file'' @ [dq]"

definition eof_marker :: string where
  "eof_marker = [dq] @ ''reason'' @ [dq] @ '':'' @ [dq] @ ''eof'' @ [dq]"

text \<open>
  \<open>mpv_check_track_end\<close> reads at most \<open>sizeof(buf) - 1 = 4095\<close> bytes, terminates them
  with NUL and searches the two markers in that C string. When the read returns nothing
  it disconnects unless \<open>errno\<close> is \<open>EAGAIN\<close> or \<open>EWOULDBLOCK\<close>. After a read that would
  block that is the case. After a read at the end of a closed connection \<open>errno\<close> is
  what the process left there before the call: \<open>again\<close> says whether \<open>errno\<close> is
  \<open>EAGAIN\<close> or \<open>EWOULDBLOCK\<close> when the function is entered.
\<close>

definition mpv_check_track_end :: "bool \<Rightarrow> Player \<Rightarrow> bool \<times> Player" where
  "mpv_check_track_end again p =
     (if mpv_ipc_fd p < 0 then (False, p)
      else case read_channel p 4095 of
        (Data buf, p') \<Rightarrow>
          (strstr (cstr buf) end_file_marker \<noteq> None \<and> strstr (cstr buf) eof_marker \<noteq> None, p')
      | (Again, p') \<Rightarrow> (False, p')
      | (Closed, p') \<Rightarrow> (False, if again then p' else mpv_disconnect p'))"

text \<open>The loop \<open>while (read(mpv_ipc_fd, drain_buf, sizeof(drain_buf)) > 0) { }\<close> of \<open>main\<close>.\<close>

function drain :: "Player \<Rightarrow> Player" where
  "drain p = (case read_channel p 4096 of (Data buf, p') \<Rightarrow> drain p' | (r, p') \<Rightarrow> p')"
  by pat_completeness auto
termination
proof (relation "measure (\<lambda>p. length (incoming p))")
  show "wf (measure (\<lambda>p. length (incoming p)))" by simp
next
  fix p :: Player and x :: "read_result \<times> Player" and r :: read_result and p' :: Player
    and buf :: string
  assume "(r, p') = read_channel p 4096" "r = Data buf"
  then have "read_channel p 4096 = (Data buf, p')" by simp
  then have "incoming p \<noteq> [] \<and> p' = p\<lparr>incoming := drop 4096 (incoming p)\<rparr>"
    by (auto simp: read_channel_def split: if_splits)
  then show "(p', p) \<in> measure (\<lambda>p. length (incoming p))" by auto
qed

declare drain.simps [simp del]

section \<open>Playback session\<close>

text \<open>
  \<open>now\<close> is what \<open>time(NULL)\<close> returns when the track is started.
\<close>

definition play_search_result :: "AppState \<Rightarrow> Player \<Rightarrow> int \<Rightarrow> int \<Rightarrow> AppState \<times> Player" where
  "play_search_result st p now idx =
     (if idx < 0 \<or> idx \<ge> search_count st then (st, p)
      else case url (search_results st ! nat idx) of
        None \<Rightarrow> (st, p)
      | Some u \<Rightarrow>
          (st\<lparr>playing_index := idx, playing_from_playlist := False,
              playing_playlist_idx := -1, paused := False, playback_started := now\<rparr>,
           mpv_load_url (mpv_start_if_needed p) u))"

definition play_playlist_song ::
  "AppState \<Rightarrow> Player \<Rightarrow> int \<Rightarrow> int \<Rightarrow> int \<Rightarrow> AppState \<times> Player" where
  "play_playlist_song st p now playlist_idx song_idx =
     (if playlist_idx < 0 \<or> playlist_idx \<ge> playlist_count st then (st, p)
      else let pl = playlists st ! nat playlist_idx
           in if song_idx < 0 \<or> song_idx \<ge> int (length (items pl)) then (st, p)
              else case url (items pl ! nat song_idx) of
                None \<Rightarrow> (st, p)
              | Some u \<Rightarrow>
                  (st\<lparr>playing_index := song_idx, playing_from_playlist := True,
                      playing_playlist_idx := playlist_idx, paused := False,
                      playback_started := now\<rparr>,
                   mpv_load_url (mpv_start_if_needed p) u))"

definition play_next :: "AppState \<Rightarrow> Player \<Rightarrow> int \<Rightarrow> AppState \<times> Player" where
  "play_next st p now =
     (if playing_from_playlist st \<and> playing_playlist_idx st \<ge> 0 then
        (let next = playing_index st + 1
         in if next < slot_count st (playing_playlist_idx st) then
              (case play_playlist_song st p now (playing_playlist_idx st) next of
                 (st', p') \<Rightarrow> (st'\<lparr>playlist_song_selected := next\<rparr>, p'))
            else (st, p))
      else if search_count st > 0 then
        (let next = playing_index st + 1
         in if next < search_count st then
              (case play_search_result st p now next of
                 (st', p') \<Rightarrow> (st'\<lparr>search_selected := next\<rparr>, p'))
            else (st, p))
      else (st, p))"

definition play_prev :: "AppState \<Rightarrow> Player \<Rightarrow> int \<Rightarrow> AppState \<times> Player" where
  "play_prev st p now =
     (if playing_from_playlist st \<and> playing_playlist_idx st \<ge> 0 then
        (let prev = playing_index st - 1
         in if prev \<ge> 0 then
              (case play_playlist_song st p now (playing_playlist_idx st) prev of
                 (st', p') \<Rightarrow> (st'\<lparr>playlist_song_selected := prev\<rparr>, p'))
            else (st, p))
      else if search_count st > 0 then
        (let prev = playing_index st - 1
         in if prev \<ge> 0 then
              (case play_search_result st p now prev of
                 (st', p') \<Rightarrow> (st'\<lparr>search_selected := prev\<rparr>, p'))
            else (st, p))
      else (st, p))"

text \<open>
  \<open>time(NULL)\<close> counts whole seconds: its value at the instant of \<open>ms\<close> milliseconds.
\<close>

definition time_reading :: "int \<Rightarrow> int" where
  "time_reading ms = ms div 1000"

text \<open>
  The first part of one pass of the loop of \<open>main\<close>, before the key is read: \<open>now\<close> is
  the time the loop reads, \<open>later\<close> the time \<open>play_next\<close> reads after it, and \<open>again\<close>
  says whether \<open>errno\<close> is \<open>EAGAIN\<close> or \<open>EWOULDBLOCK\<close> at the start of the pass. The
  status line and the redraw are left out.
\<close>

definition auto_advance ::
  "bool \<Rightarrow> AppState \<Rightarrow> Player \<Rightarrow> int \<Rightarrow> int \<Rightarrow> AppState \<times> Player" where
  "auto_advance again st p now later =
     (if playing_index st \<ge> 0 \<and> mpv_ipc_fd p \<ge> 0 then
        (if now - playback_started st \<ge> 3 then
           (case mpv_check_track_end again p of
              (True, p') \<Rightarrow> play_next st p' later
            | (False, p') \<Rightarrow> (st, p'))
         else (st, drain p))
      else (st, p))"

section \<open>Events of the player\<close>

text \<open>
  The channel carries one event per line. The events of a piece of data are its lines,
  and an \<open>end-file\<close> event whose reason is \<open>eof\<close> is a line that holds the marker of
  the event and the marker of the reason.
\<close>

fun events :: "string \<Rightarrow> string list" where
  "events [] = [[]]"
| "events (c # s) =
     (if c = nl then [] # events s
      else (case events s of [] \<Rightarrow> [[c]] | e # es \<Rightarrow> (c # e) # es))"

definition eof_event :: "string \<Rightarrow> bool" where
  "eof_event e = (strstr e end_file_marker \<noteq> None \<and> strstr e eof_marker \<noteq> None)"

section \<open>Files in the layout of the encoder\<close>

text \<open>
  A field as the encoders write it, the lines of an array of objects (four spaces, the
  object, a comma except after the last, a newline) and a playlist file with a name
  and an array of objects.
\<close>

definition json_field :: "string \<Rightarrow> string \<Rightarrow> string" where
  "json_field key val =
     [dq] @ key @ [dq] @ '': '' @ [dq] @ json_escape_string (Some val) @ [dq]"

fun object_lines :: "string list \<Rightarrow> string" where
  "object_lines [] = []"
| "object_lines [obj] = ''    '' @ obj @ [nl]"
| "object_lines (obj # q # r) = ''    '' @ obj @ '','' @ [nl] @ object_lines (q # r)"

definition songs_file :: "string \<Rightarrow> string list \<Rightarrow> string" where
  "songs_file nm objs =
     ''{'' @ [nl] @ ''  '' @ [dq] @ ''name'' @ [dq] @ '': '' @ [dq] @ nm @ [dq] @ '','' @ [nl]
       @ ''  '' @ [dq] @ ''songs'' @ [dq] @ '': ['' @ [nl]
       @ object_lines objs @ ''  ]'' @ [nl] @ ''}'' @ [nl]"

text \<open>
  A song entry of such a file: each of its two fields is there or not. What the
  decoder is to make of it is \<open>decoded_entry\<close>: nothing when a field is missing or
  the id is empty, and nothing when the title, with the quote that opens it, ends with
  a quote followed by \<open>video_id\<close>.
\<close>

definition entry_text :: "string option \<times> string option \<Rightarrow> string" where
  "entry_text e =
     ''{''
     @ (case e of
          (Some t, Some v) \<Rightarrow> json_field ''title'' t @ '', '' @ json_field ''video_id'' v
        | (Some t, None) \<Rightarrow> json_field ''title'' t
        | (None, Some v) \<Rightarrow> json_field ''video_id'' v
        | (None, None) \<Rightarrow> [])
     @ ''}''"

definition decoded_entry :: "string option \<times> string option \<Rightarrow> Song option" where
  "decoded_entry e =
     (case e of
        (Some t, Some v) \<Rightarrow>
          if v \<noteq> [] \<and> \<not> suffix (dq # ''video_id'') (dq # t)
          then Some \<lparr>title = Some t, video_id = Some v, url = Some (song_url v), duration = 0\<rparr>
          else None
      | _ \<Rightarrow> None)"

definition brace_free_entry :: "string option \<times> string option \<Rightarrow> bool" where
  "brace_free_entry e =
     ((case fst e of Some t \<Rightarrow> CHR ''}'' \<notin> set t | None \<Rightarrow> True)
      \<and> (case snd e of Some v \<Rightarrow> CHR ''}'' \<notin> set v | None \<Rightarrow> True))"

section \<open>Strings that the format carries\<close>

text \<open>A byte that \<open>json_escape_string\<close> copies as it is.\<close>

definition plain :: "char \<Rightarrow> bool" where
  "plain c = (c \<noteq> dq \<and> c \<noteq> bsl \<and> c \<noteq> nl \<and> c \<noteq> cr \<and> c \<noteq> tab)"

text \<open>
  A text that the object scan copies whole: it starts with \<open>{\<close>, ends with \<open>}\<close> and
  has no other \<open>}\<close>.
\<close>

definition braced :: "string \<Rightarrow> bool" where
  "braced obj =
     (case obj of
        [] \<Rightarrow> False
      | c # r \<Rightarrow> c = CHR ''{'' \<and> r \<noteq> [] \<and> last r = CHR ''}'' \<and> CHR ''}'' \<notin> set (butlast r))"

text \<open>
  The songs that a playlist file gives back: title and id are not NULL and hold no
  \<open>}\<close> (the scan cuts an object at the first one) and no NUL, the id is not empty, and
  the title, with the quote that opens it, does not end with a quote followed by
  \<open>video_id\<close> (the search for the key \<open>video_id\<close> would stop there). The playlists
  considered: the name holds no double quote and no NUL, every song is such a song,
  there are at most 500 of them, and the text is at most 1 MiB long. \<open>save_playlist\<close>
  writes the name without escaping it, unlike \<open>save_playlists_index\<close>; what follows
  for a name with a double quote is left open.
\<close>

definition storable_song :: "Song \<Rightarrow> bool" where
  "storable_song s =
     (case title s of
        None \<Rightarrow> False
      | Some t \<Rightarrow>
          (case video_id s of
             None \<Rightarrow> False
           | Some v \<Rightarrow>
               v \<noteq> [] \<and> CHR ''}'' \<notin> set t \<and> CHR ''}'' \<notin> set v
               \<and> nul \<notin> set t \<and> nul \<notin> set v
               \<and> \<not> suffix (dq # ''video_id'') (dq # t)))"

definition storable_playlist :: "Playlist \<Rightarrow> bool" where
  "storable_playlist pl =
     (dq \<notin> set (name pl) \<and> nul \<notin> set (name pl)
      \<and> list_all storable_song (items pl)
      \<and> length (items pl) \<le> MAX_PLAYLIST_ITEMS
      \<and> length (playlist_text pl) \<le> 1024 * 1024)"

text \<open>
  The same for the index: names and file names are not empty and hold no \<open>}\<close> and no
  NUL, no name with its opening quote ends with a quote followed by \<open>filename\<close>, there
  are at most 50 playlists, and the text is at most 1 MiB long.
\<close>

definition storable_entry :: "Playlist \<Rightarrow> bool" where
  "storable_entry pl =
     (name pl \<noteq> [] \<and> filename pl \<noteq> []
      \<and> CHR ''}'' \<notin> set (name pl) \<and> CHR ''}'' \<notin> set (filename pl)
      \<and> nul \<notin> set (name pl) \<and> nul \<notin> set (filename pl)
      \<and> \<not> suffix (dq # ''filename'') (dq # name pl))"

definition storable_index :: "AppState \<Rightarrow> bool" where
  "storable_index st =
     (list_all storable_entry (playlists st)
      \<and> length (playlists st) \<le> MAX_PLAYLISTS
      \<and> length (index_text st) \<le> 1024 * 1024)"

text \<open>What the decoders store for a song and for a playlist that were written.\<close>

definition stored_song :: "Song \<Rightarrow> Song" where
  "stored_song s =
     \<lparr>title = title s, video_id = video_id s,
      url = Some (song_url (case video_id s of Some v \<Rightarrow> v | None \<Rightarrow> [])), duration = 0\<rparr>"

definition stored_entry :: "Playlist \<Rightarrow> Playlist" where
  "stored_entry pl = \<lparr>name = name pl, filename = filename pl, items = []\<rparr>"

section \<open>Example states\<close>

text \<open>
  The state of \<open>main\<close> after \<open>init_config_dirs\<close> with \<open>HOME=/h\<close>, and a file system
  that holds the two configuration directories and no file.
\<close>

definition init_state :: AppState where
  "init_state =
     \<lparr>search_results = [], search_selected = 0, playlists = [], playlist_song_selected = 0,
      playing_index = -1, playing_from_playlist = False, playing_playlist_idx = -1,
      paused = False, playback_started = 0,
      playlists_dir = ''/h/.shellbeats/playlists'',
      playlists_index = ''/h/.shellbeats/playlists.json''\<rparr>"

definition empty_fs :: FileSystem where
  "empty_fs =
     \<lparr>files = Map.empty, dirs = {''/h/.shellbeats'', ''/h/.shellbeats/playlists''},
      write_denied = {}\<rparr>"

definition numbered_song :: "nat \<Rightarrow> Song" where
  "numbered_song i =
     \<lparr>title = Some (''Song '' @ decimal i), video_id = Some (''id'' @ decimal i),
      url = Some (song_url (''id'' @ decimal i)), duration = 0\<rparr>"

text \<open>A library with one playlist that holds 500 songs.\<close>

definition full_playlist_state :: AppState where
  "full_playlist_state =
     init_state\<lparr>playlists :=
       [\<lparr>name = ''Road Trip'', filename = ''road_trip.json'',
         items = map numbered_song [0..<500]\<rparr>]\<rparr>"

text \<open>A library with one playlist that holds one song.\<close>

definition road_trip_state :: AppState where
  "road_trip_state =
     init_state\<lparr>playlists :=
       [\<lparr>name = ''Road Trip'', filename = ''road_trip.json'', items = [numbered_song 1]\<rparr>]\<rparr>"

text \<open>A library with 50 playlists, named \<open>a\<close>, \<open>aa\<close>, \<open>aaa\<close> and so on.\<close>

definition full_library :: AppState where
  "full_library =
     init_state\<lparr>playlists :=
       map (\<lambda>i. \<lparr>name = replicate (Suc i) (CHR ''a''),
                 filename = replicate (Suc i) (CHR ''a'') @ ''.json'', items = []\<rparr>) [0..<50]\<rparr>"

text \<open>A sequence of \<open>create_playlist\<close> calls, with the value each call returns.\<close>

fun create_all ::
  "Locale \<Rightarrow> AppState \<Rightarrow> FileSystem \<Rightarrow> string list
     \<Rightarrow> int list \<times> AppState \<times> FileSystem" where
  "create_all loc st fs [] = ([], st, fs)"
| "create_all loc st fs (nm # rest) =
     (case create_playlist loc st fs (Some nm) of
        (r, st1, fs1) \<Rightarrow>
          (case create_all loc st1 fs1 rest of (rs, st2, fs2) \<Rightarrow> (r # rs, st2, fs2)))"

text \<open>
  The library and the files after three playlists are created in an empty library, in
  the C locale.
\<close>

definition colliding_library :: "AppState \<times> FileSystem" where
  "colliding_library = snd (create_all c_locale init_state empty_fs [''a'', ''2_a'', ''a!''])"

text \<open>
  A locale with the Turkish case rule, as the UTF-8 locale for Turkish: the small
  letter for \<open>I\<close> is the dotless one, which is no single byte, so \<open>tolower\<close> leaves
  \<open>I\<close> as it is.
\<close>

definition turkish_locale :: Locale where
  "turkish_locale =
     c_locale\<lparr>tolower := (\<lambda>c. if c = CHR ''I'' then c else tolower c_locale c)\<rparr>"

text \<open>A connected player with nothing to read.\<close>

definition idle_player :: Player where
  "idle_player =
     \<lparr>mpv_pid = 100, mpv_ipc_fd = 3, socket_file = True, listening = True, incoming = [],
      peer_closed = False, sent = [], new_fd = 3, fork_result = 100, launch_works = True\<rparr>"

text \<open>Five search results, the last one playing since time 1000.\<close>

definition search_state :: AppState where
  "search_state =
     init_state\<lparr>search_results := map numbered_song [0..<5], playing_index := 4,
                playback_started := 1000\<rparr>"

text \<open>The same with the first result playing.\<close>

definition first_result_state :: AppState where
  "first_result_state = search_state\<lparr>playing_index := 0\<rparr>"

text \<open>
  The same with the first result started 10.9 seconds after the clock showed a new
  minute, so that \<open>time\<close> returned 10.
\<close>

definition late_start_state :: AppState where
  "late_start_state = first_result_state\<lparr>playback_started := time_reading 10900\<rparr>"

text \<open>The only song of the only playlist playing since time 1000.\<close>

definition playlist_state :: AppState where
  "playlist_state =
     road_trip_state\<lparr>playing_index := 0, playing_from_playlist := True,
                     playing_playlist_idx := 0, playback_started := 1000\<rparr>"

text \<open>An event with a name and a reason, and an \<open>end-file\<close> event with its reason.\<close>

definition reason_event :: "string \<Rightarrow> string \<Rightarrow> string" where
  "reason_event ev reason =
     ''{'' @ [dq] @ ''event'' @ [dq] @ '':'' @ [dq] @ ev @ [dq] @ '',''
       @ [dq] @ ''reason'' @ [dq] @ '':'' @ [dq] @ reason @ [dq] @ ''}'' @ [nl]"

definition end_file_event :: "string \<Rightarrow> string" where
  "end_file_event reason = reason_event ''end-file'' reason"


text \<open>
  A player that has written a byte, a NUL byte and then the event of the end of the
  track.
\<close>

definition nul_player :: Player where
  "nul_player = idle_player\<lparr>incoming := ''x'' @ [nul] @ end_file_event ''eof''\<rparr>"

text \<open>
  A player that has written an \<open>end-file\<close> event with the reason \<open>stop\<close> and then
  241 \<open>tick\<close> events (4097 bytes).
\<close>

definition tick_line :: string where
  "tick_line = ''{'' @ [dq] @ ''event'' @ [dq] @ '':'' @ [dq] @ ''tick'' @ [dq] @ ''}'' @ [nl]"


text \<open>A player that has written the event of the end of the track.\<close>

definition ended_player :: Player where
  "ended_player = idle_player\<lparr>incoming := end_file_event ''eof''\<rparr>"

text \<open>
  A player that has written 241 \<open>tick\<close> events (4097 bytes) and then the event of the
  end of the track.
\<close>

definition busy_player :: Player where
  "busy_player =
     idle_player\<lparr>incoming := concat (replicate 241 tick_line) @ end_file_event ''eof''\<rparr>"

text \<open>
  A library whose first playlist has quotes, backslashes, a newline, a carriage return,
  a tab and braces in its titles and ids and an opening brace in its name, and whose
  second playlist has a quote and a backslash in its name. The same library after a
  restart, with the same two playlists and no song loaded.
\<close>

definition tricky_song :: Song where
  "tricky_song =
     \<lparr>title = Some (''He said '' @ [dq] @ ''hi'' @ [dq, bsl, nl, cr, tab] @ '' {video_id ok''),
      video_id = Some (''ab'' @ [dq, bsl] @ ''c123''),
      url = Some (song_url (''ab'' @ [dq, bsl] @ ''c123'')), duration = 7\<rparr>"

definition tricky_state :: AppState where
  "tricky_state =
     init_state\<lparr>playlists :=
       [\<lparr>name = ''Road {Trip'' @ [bsl], filename = ''road_trip.json'',
         items = [tricky_song, numbered_song 2]\<rparr>,
        \<lparr>name = ''b '' @ [dq, bsl] @ '' c'', filename = ''b__c.json'', items = []\<rparr>]\<rparr>"

definition restarted_state :: AppState where
  "restarted_state =
     init_state\<lparr>playlists :=
       [\<lparr>name = ''Road {Trip'' @ [bsl], filename = ''road_trip.json'', items = []\<rparr>,
        \<lparr>name = ''b '' @ [dq, bsl] @ '' c'', filename = ''b__c.json'', items = []\<rparr>]\<rparr>"

text \<open>
  A library with a song whose title is \<open>video_id\<close> and a playlist whose name is
  \<open>filename\<close>.
\<close>

definition video_id_title_state :: AppState where
  "video_id_title_state =
     init_state\<lparr>playlists :=
       [\<lparr>name = ''Road Trip'', filename = ''road_trip.json'',
         items = [\<lparr>title = Some ''video_id'', video_id = Some ''abc123'',
                   url = Some (song_url ''abc123''), duration = 0\<rparr>]\<rparr>,
        \<lparr>name = ''filename'', filename = ''filename.json'', items = []\<rparr>]\<rparr>"

text \<open>
  Four entries of a playlist file: one with a title and an id, one with a title only,
  one with an empty id and one with an id only.
\<close>

definition mixed_entries :: "(string option \<times> string option) list" where
  "mixed_entries =
     [(Some ''A'', Some ''abc123''), (Some ''B'', None), (Some ''C'', Some []),
      (None, Some ''xyz789'')]"

text \<open>A library of three empty playlists with their files.\<close>

definition abc_state :: AppState where
  "abc_state =
     init_state\<lparr>playlists :=
       [\<lparr>name = ''a'', filename = ''a.json'', items = []\<rparr>,
        \<lparr>name = ''b'', filename = ''b.json'', items = []\<rparr>,
        \<lparr>name = ''c'', filename = ''c.json'', items = []\<rparr>]\<rparr>"

definition abc_fs :: FileSystem where
  "abc_fs =
     empty_fs\<lparr>files :=
       [''/h/.shellbeats/playlists.json'' \<mapsto> index_text abc_state,
        ''/h/.shellbeats/playlists/a.json'' \<mapsto> playlist_text (playlists abc_state ! 0),
        ''/h/.shellbeats/playlists/b.json'' \<mapsto> playlist_text (playlists abc_state ! 1),
        ''/h/.shellbeats/playlists/c.json'' \<mapsto> playlist_text (playlists abc_state ! 2)]\<rparr>"

section \<open>Properties of the C string functions\<close>


lemma strcasecmp_eq_0:
  "strcasecmp loc a b = 0 \<longleftrightarrow> map (tolower loc) a = map (tolower loc) b"
  by (induction loc a b rule: strcasecmp.induct) auto

lemma strstr_prefix: "prefix pat s \<Longrightarrow> strstr s pat = Some s"
  by (cases s) auto

lemma strstr_found:
  "prefix pat b \<Longrightarrow> \<exists>a1 a2. a = a1 @ a2 \<and> strstr (a @ b) pat = Some (a2 @ b)"
proof (induction a)
  case Nil
  then show ?case by (simp add: strstr_prefix)
next
  case (Cons x a)
  show ?case
  proof (cases "prefix pat (x # a @ b)")
    case True
    then have "x # a = [] @ (x # a) \<and> strstr ((x # a) @ b) pat = Some ((x # a) @ b)" by simp
    then show ?thesis by blast
  next
    case False
    from Cons obtain a1 a2 where "a = a1 @ a2" "strstr (a @ b) pat = Some (a2 @ b)" by blast
    then have "x # a = (x # a1) @ a2 \<and> strstr ((x # a) @ b) pat = Some (a2 @ b)"
      using False by simp
    then show ?thesis by blast
  qed
qed

lemma strchr_found: "\<exists>a1 a2. a = a1 @ a2 \<and> strchr (a @ c # b) c = Some (a2 @ c # b)"
proof (induction a)
  case Nil
  show ?case by (rule exI[of _ "[]"], rule exI[of _ "[]"]) simp
next
  case (Cons x a)
  then obtain a1 a2 where IH: "a = a1 @ a2" "strchr (a @ c # b) c = Some (a2 @ c # b)"
    by (elim exE conjE)
  show ?case
  proof (cases "x = c")
    case True
    show ?thesis by (rule exI[of _ "[]"], rule exI[of _ "x # a"]) (simp add: True)
  next
    case False
    have 1: "x # a = (x # a1) @ a2" using IH(1) by simp
    have 2: "strchr ((x # a) @ c # b) c = Some (a2 @ c # b)" using IH(2) False by simp
    show ?thesis by (rule exI[of _ "x # a1"], rule exI[of _ a2], rule conjI, rule 1, rule 2)
  qed
qed

lemma strchr_absent: "c \<notin> set s \<Longrightarrow> strchr s c = None"
  by (induction s) auto

lemma strchr_first: "c \<notin> set a \<Longrightarrow> strchr (a @ c # b) c = Some (c # b)"
  by (induction a) auto

lemma cstr_id: "nul \<notin> set s \<Longrightarrow> cstr s = s"
  by (auto simp: cstr_def takeWhile_eq_all_conv)

section \<open>Capacity\<close>

text \<open>The object scan never stores more than \<open>limit\<close> entries.\<close>

lemma objects_loop_length:
  "length (objects_loop limit entry p acc) \<le> max limit (length acc)"
proof (induction limit entry p acc rule: objects_loop.induct)
  case (1 limit entry p acc)
  show ?case
  proof (cases "length acc < limit")
    case False
    then show ?thesis by (subst objects_loop.simps) simp
  next
    case True
    show ?thesis
    proof (cases "strchr p (CHR ''{'')")
      case None
      with True show ?thesis by (subst objects_loop.simps) simp
    next
      case (Some os)
      show ?thesis
      proof (cases "strchr os (CHR ''}'')")
        case None
        with True Some show ?thesis by (subst objects_loop.simps) simp
      next
        case oe: (Some oe)
        let ?acc = "case entry (take (length os - length oe + 1) os) of
                      Some e \<Rightarrow> acc @ [e] | None \<Rightarrow> acc"
        have "length (objects_loop limit entry (tl oe) ?acc) \<le> max limit (length ?acc)"
          using "1.IH"[OF True Some oe refl refl] .
        moreover have "length ?acc \<le> limit"
          using True by (simp split: option.split)
        ultimately show ?thesis
          using True Some oe by (subst objects_loop.simps) (simp add: Let_def)
      qed
    qed
  qed
qed

lemma parse_songs_length: "length (parse_songs content) \<le> MAX_PLAYLIST_ITEMS"
  using objects_loop_length[of MAX_PLAYLIST_ITEMS song_of_object _ "[]"]
  by (simp add: parse_songs_def split: option.split)

text \<open>
  C10. A playlist that holds 500 songs takes no more: \<open>add_song_to_playlist\<close> returns
  false and leaves the state in memory and every file as they were, whatever the song.
  The decoder stores at most 500 songs, whatever the content of the file, so a playlist
  has at most 500 songs after \<open>load_playlist_songs\<close>.
\<close>

theorem capacity_limit:
  "(0 \<le> idx \<and> idx < playlist_count st
      \<and> length (items (playlists st ! nat idx)) = MAX_PLAYLIST_ITEMS
    \<longrightarrow> add_song_to_playlist st fs idx song = (False, st, fs))
   \<and> length (parse_songs content) \<le> MAX_PLAYLIST_ITEMS
   \<and> (0 \<le> idx \<and> idx < playlist_count st
      \<longrightarrow> length (items (playlists (load_playlist_songs st fs idx) ! nat idx))
            \<le> MAX_PLAYLIST_ITEMS)"
proof (intro conjI impI)
  assume "0 \<le> idx \<and> idx < playlist_count st
      \<and> length (items (playlists st ! nat idx)) = MAX_PLAYLIST_ITEMS"
  then show "add_song_to_playlist st fs idx song = (False, st, fs)"
    by (simp add: add_song_to_playlist_def MAX_PLAYLIST_ITEMS_def Let_def split: option.split)
next
  show "length (parse_songs content) \<le> MAX_PLAYLIST_ITEMS" by (rule parse_songs_length)
next
  assume "0 \<le> idx \<and> idx < playlist_count st"
  then show "length (items (playlists (load_playlist_songs st fs idx) ! nat idx))
             \<le> MAX_PLAYLIST_ITEMS"
    using parse_songs_length
    by (auto simp: load_playlist_songs_def set_items_def playlist_count_def Let_def
             split: option.split)
qed

theorem capacity_limit_witness:
  "add_song_to_playlist full_playlist_state empty_fs 0 (Some (numbered_song 500))
     = (False, full_playlist_state, empty_fs)
   \<and> length (items (playlists (load_playlist_songs full_playlist_state empty_fs 0) ! 0)) \<le> 500"
  using capacity_limit[of 0 full_playlist_state empty_fs "Some (numbered_song 500)" "[]"]
  by (simp add: full_playlist_state_def playlist_count_def MAX_PLAYLIST_ITEMS_def)

section \<open>Songs of a playlist\<close>






section \<open>Creating playlists\<close>

lemma create_playlist_existing:
  assumes "pl \<in> set (playlists st)" "map (tolower loc) (name pl) = map (tolower loc) nm"
  shows "create_playlist loc st fs (Some nm)
         = ((if playlist_count st \<ge> int MAX_PLAYLISTS \<or> nm = [] then -1 else -2), st, fs)"
proof -
  have "list_ex (\<lambda>pl. strcasecmp loc (name pl) nm = 0) (playlists st)"
    using assms by (auto simp: list_ex_iff strcasecmp_eq_0)
  then show ?thesis by (simp add: create_playlist_def)
qed

lemma create_playlist_result:
  assumes "create_playlist loc st fs (Some nm) = (r, st1, fs1)"
  shows "(r < 0 \<and> st1 = st \<and> fs1 = fs) \<or> (\<exists>pl \<in> set (playlists st1). name pl = nm)"
  using assms
  by (auto simp: create_playlist_def Let_def split: if_splits)

text \<open>
  C4, amended. The names are compared with \<open>strcasecmp\<close>, so two names are the same
  name when they are equal byte by byte after \<open>tolower\<close> of the locale of the process
  (in the C locale: equal up to ASCII case). When the library holds a playlist whose
  name is the new name in that sense, \<open>create_playlist\<close> fails and leaves the library
  and every file as they were; it returns -2 (the name exists) unless the library
  already holds 50 playlists or the name is empty, where it returns -1. So the second
  of two consecutive calls with such names fails in the same way.
\<close>

theorem duplicate_name_rejected:
  "(pl \<in> set (playlists st) \<and> map (tolower loc) (name pl) = map (tolower loc) nm
    \<longrightarrow> create_playlist loc st fs (Some nm)
        = ((if playlist_count st \<ge> int MAX_PLAYLISTS \<or> nm = [] then -1 else -2), st, fs))
   \<and> (create_playlist loc st fs (Some nm) = (r, st1, fs1)
      \<and> map (tolower loc) nm = map (tolower loc) nm'
    \<longrightarrow> create_playlist loc st1 fs1 (Some nm')
        = ((if playlist_count st1 \<ge> int MAX_PLAYLISTS \<or> nm' = [] then -1 else -2), st1, fs1))"
proof (intro conjI impI)
  assume "pl \<in> set (playlists st) \<and> map (tolower loc) (name pl) = map (tolower loc) nm"
  then show "create_playlist loc st fs (Some nm)
        = ((if playlist_count st \<ge> int MAX_PLAYLISTS \<or> nm = [] then -1 else -2), st, fs)"
    using create_playlist_existing by blast
next
  assume a: "create_playlist loc st fs (Some nm) = (r, st1, fs1)
      \<and> map (tolower loc) nm = map (tolower loc) nm'"
  from create_playlist_result[of loc st fs nm r st1 fs1] a
  consider (fail) "r < 0" "st1 = st" "fs1 = fs" | (ok) q where "q \<in> set (playlists st1)" "name q = nm"
    by blast
  then show "create_playlist loc st1 fs1 (Some nm')
        = ((if playlist_count st1 \<ge> int MAX_PLAYLISTS \<or> nm' = [] then -1 else -2), st1, fs1)"
  proof cases
    case ok
    then show ?thesis using create_playlist_existing[of q st1 loc nm' fs1] a by simp
  next
    case fail
    have e: "nm' = [] \<longleftrightarrow> nm = []" using a by (metis map_is_Nil_conv)
    have l: "list_ex (\<lambda>pl. strcasecmp loc (name pl) nm' = 0) (playlists st)
             = list_ex (\<lambda>pl. strcasecmp loc (name pl) nm = 0) (playlists st)"
      using a by (simp add: strcasecmp_eq_0)
    from a fail have "playlist_count st \<ge> int MAX_PLAYLISTS \<or> nm = []
        \<or> list_ex (\<lambda>pl. strcasecmp loc (name pl) nm = 0) (playlists st)"
      by (auto simp: create_playlist_def Let_def playlist_count_def split: if_splits)
    then show ?thesis using fail e l by (auto simp: create_playlist_def)
  qed
qed

theorem duplicate_name_rejected_witness:
  "create_playlist c_locale road_trip_state empty_fs (Some ''ROAD TRIP'')
     = (-2, road_trip_state, empty_fs)
   \<and> (case create_playlist c_locale road_trip_state empty_fs (Some ''Chill'') of
        (r, st1, fs1) \<Rightarrow>
          r = 1 \<and> create_playlist c_locale st1 fs1 (Some ''CHILL'') = (-2, st1, fs1))"
proof -
  have t: "map (tolower c_locale) ''Road Trip'' = map (tolower c_locale) ''ROAD TRIP''"
    "map (tolower c_locale) ''Chill'' = map (tolower c_locale) ''CHILL''"
    by (simp_all add: c_locale_def upper_letters_def lower_letters_def)
  have 1: "create_playlist c_locale road_trip_state empty_fs (Some ''ROAD TRIP'')
           = (-2, road_trip_state, empty_fs)"
    using duplicate_name_rejected[of "playlists road_trip_state ! 0" road_trip_state c_locale
        "''ROAD TRIP''" empty_fs] t
    by (simp add: road_trip_state_def playlist_count_def MAX_PLAYLISTS_def)
  have "fst (create_playlist c_locale road_trip_state empty_fs (Some ''Chill'')) = 1
        \<and> playlist_count (fst (snd (create_playlist c_locale road_trip_state empty_fs
                                       (Some ''Chill'')))) = 2"
    by (simp add: create_playlist_def road_trip_state_def playlist_count_def MAX_PLAYLISTS_def
          strcasecmp_eq_0 c_locale_def upper_letters_def lower_letters_def Let_def)
  then obtain st1 fs1 where
    a: "create_playlist c_locale road_trip_state empty_fs (Some ''Chill'') = (1, st1, fs1)"
    and c: "playlist_count st1 = 2"
    by (cases "create_playlist c_locale road_trip_state empty_fs (Some ''Chill'')") auto
  from duplicate_name_rejected[of _ road_trip_state c_locale "''Chill''" empty_fs 1 st1 fs1
      "''CHILL''"] a t c
  have "create_playlist c_locale st1 fs1 (Some ''CHILL'') = (-2, st1, fs1)"
    by (simp add: MAX_PLAYLISTS_def)
  then show ?thesis using 1 a by simp
qed

text \<open>
  C4 as stated fails for a full library: the capacity test comes before the name test,
  so the call returns -1, not -2, although a playlist of that name exists. It also
  fails under the Turkish case rule, where \<open>I\<close> and \<open>i\<close> are not the same letter: the
  names \<open>Road Trip\<close> and \<open>ROAD TRIP\<close> are equal up to ASCII case, and the second is
  created beside the first.
\<close>

theorem duplicate_name_full_library_counterexample:
  "playlist_count full_library = 50
   \<and> name (playlists full_library ! 0) = ''a''
   \<and> strcasecmp c_locale (name (playlists full_library ! 0)) ''A'' = 0
   \<and> create_playlist c_locale full_library empty_fs (Some ''A'')
       = (-1, full_library, empty_fs)
   \<and> map name (playlists road_trip_state) = [''Road Trip'']
   \<and> map (tolower c_locale) ''Road Trip'' = map (tolower c_locale) ''ROAD TRIP''
   \<and> (case create_playlist turkish_locale road_trip_state empty_fs (Some ''ROAD TRIP'') of
        (r, st1, fs1) \<Rightarrow> r = 1 \<and> map name (playlists st1) = [''Road Trip'', ''ROAD TRIP''])"
  by (simp add: full_library_def playlist_count_def create_playlist_def MAX_PLAYLISTS_def
        c_locale_def turkish_locale_def upper_letters_def lower_letters_def
        road_trip_state_def Let_def)

text \<open>
  C9. Three calls of \<open>create_playlist\<close> in an empty library, with the names \<open>a\<close>,
  \<open>2_a\<close> and \<open>a!\<close>, all succeed. The third name gives the file name \<open>a.json\<close> of the
  first playlist, so it gets the prefix of its position, 2, and the result \<open>2_a.json\<close>
  is the file name of the second playlist: it is not compared with the file names in use.
  This holds in every locale in which \<open>a\<close> and \<open>2\<close> are alphanumeric, \<open>!\<close> is
  not, and \<open>tolower\<close> leaves \<open>a\<close>, \<open>2\<close> and \<open>_\<close> as they are, so in the C locale.
\<close>

theorem storage_key_collision:
  "isalnum loc (CHR ''a'') \<and> isalnum loc (CHR ''2'') \<and> \<not> isalnum loc (CHR ''!'')
   \<and> tolower loc (CHR ''a'') = CHR ''a'' \<and> tolower loc (CHR ''2'') = CHR ''2''
   \<and> tolower loc (CHR ''_'') = CHR ''_''
   \<longrightarrow> (case create_all loc init_state empty_fs [''a'', ''2_a'', ''a!''] of
      (rs, st, fs) \<Rightarrow> rs = [0, 1, 2]
        \<and> map name (playlists st) = [''a'', ''2_a'', ''a!'']
        \<and> map filename (playlists st) = [''a.json'', ''2_a.json'', ''2_a.json''])"
proof
  assume h: "isalnum loc (CHR ''a'') \<and> isalnum loc (CHR ''2'') \<and> \<not> isalnum loc (CHR ''!'')
   \<and> tolower loc (CHR ''a'') = CHR ''a'' \<and> tolower loc (CHR ''2'') = CHR ''2''
   \<and> tolower loc (CHR ''_'') = CHR ''_''"
  have d: "decimal 2 = ''2''" by (simp add: decimal.simps)
  obtain st1 fs1 where 1: "create_playlist loc init_state empty_fs (Some ''a'') = (0, st1, fs1)"
    and s1: "playlists st1 = [\<lparr>name = ''a'', filename = ''a.json'', items = []\<rparr>]"
    using h
    by (simp add: create_playlist_def init_state_def playlist_count_def MAX_PLAYLISTS_def
          sanitize_filename_def Let_def)
  obtain st2 fs2 where 2: "create_playlist loc st1 fs1 (Some ''2_a'') = (1, st2, fs2)"
    and s2: "playlists st2 = [\<lparr>name = ''a'', filename = ''a.json'', items = []\<rparr>,
                             \<lparr>name = ''2_a'', filename = ''2_a.json'', items = []\<rparr>]"
    using h s1
    by (simp add: create_playlist_def playlist_count_def MAX_PLAYLISTS_def
          sanitize_filename_def Let_def)
  obtain st3 fs3 where 3: "create_playlist loc st2 fs2 (Some ''a!'') = (2, st3, fs3)"
    and s3: "playlists st3 = [\<lparr>name = ''a'', filename = ''a.json'', items = []\<rparr>,
                             \<lparr>name = ''2_a'', filename = ''2_a.json'', items = []\<rparr>,
                             \<lparr>name = ''a!'', filename = ''2_a.json'', items = []\<rparr>]"
    using h s2 d
    by (simp add: create_playlist_def playlist_count_def MAX_PLAYLISTS_def
          sanitize_filename_def snprintf_def Let_def)
  show "case create_all loc init_state empty_fs [''a'', ''2_a'', ''a!''] of
      (rs, st, fs) \<Rightarrow> rs = [0, 1, 2]
        \<and> map name (playlists st) = [''a'', ''2_a'', ''a!'']
        \<and> map filename (playlists st) = [''a.json'', ''2_a.json'', ''2_a.json'']"
    by (simp add: 1 2 3 s3)
qed

theorem storage_key_collision_witness:
  "(case create_all c_locale init_state empty_fs [''a'', ''2_a'', ''a!''] of
      (rs, st, fs) \<Rightarrow> rs = [0, 1, 2]
        \<and> map name (playlists st) = [''a'', ''2_a'', ''a!'']
        \<and> map filename (playlists st) = [''a.json'', ''2_a.json'', ''2_a.json''])"
  using storage_key_collision[of c_locale]
  by (simp add: c_locale_def upper_letters_def lower_letters_def)

section \<open>Deleting playlists\<close>

lemma shift_down_length: "length (shift_down a i n) = length a"
  by (induction a i n rule: shift_down.induct) (subst shift_down.simps, simp)

lemma shift_down_take:
  "i < n \<Longrightarrow> n = length a \<Longrightarrow> take (n - 1) (shift_down a i n) = take i a @ drop (i + 1) a"
proof (induction a i n rule: shift_down.induct)
  case (1 a i n)
  show ?case
  proof (cases "i + 1 < n")
    case True
    let ?a = "a[i := a ! (i + 1)]"
    have "take (n - 1) (shift_down ?a (i + 1) n) = take (i + 1) ?a @ drop (i + 1 + 1) ?a"
      using "1.IH"[OF True] True "1.prems" by simp
    also have "take (i + 1) ?a = take i a @ [a ! (i + 1)]"
      using True "1.prems" by (simp add: take_Suc_conv_app_nth)
    also have "drop (i + 1 + 1) ?a = drop (i + 2) a" by simp
    also have "(take i a @ [a ! (i + 1)]) @ drop (i + 2) a = take i a @ drop (i + 1) a"
      using True "1.prems" by (simp add: Cons_nth_drop_Suc)
    finally show ?thesis using True by (subst shift_down.simps) simp
  next
    case False
    with "1.prems" have n: "n = i + 1" by simp
    then have "n - 1 = i" by simp
    with "1.prems" n False show ?thesis by (subst shift_down.simps) simp
  qed
qed

lemma delete_playlist_reindex:
  assumes "0 \<le> idx" "idx < playlist_count st"
  shows "\<exists>fs'. delete_playlist st fs idx
           = (True, st\<lparr>playlists := take (nat idx) (playlists st) @ drop (nat idx + 1) (playlists st)\<rparr>, fs')
         \<and> (playlists_index st \<noteq> playlist_path st (playlists st ! nat idx)
              \<longrightarrow> files fs' (playlist_path st (playlists st ! nat idx)) = None)
         \<and> (\<forall>path. path \<noteq> playlist_path st (playlists st ! nat idx) \<and> path \<noteq> playlists_index st
              \<longrightarrow> files fs' path = files fs path)"
proof -
  have i: "nat idx < length (playlists st)" using assms by (simp add: playlist_count_def)
  have "take (length (playlists st) - 1) (shift_down (playlists st) (nat idx) (length (playlists st)))
        = take (nat idx) (playlists st) @ drop (nat idx + 1) (playlists st)"
    using shift_down_take[OF i refl] .
  then show ?thesis using assms
    by (simp add: delete_playlist_def Let_def save_playlists_index_def write_file_def unlink_def)
qed

lemma remove_nth:
  assumes "i < length xs"
  shows "length (take i xs @ drop (i + 1) xs) = length xs - 1"
    and "\<forall>j < i. (take i xs @ drop (i + 1) xs) ! j = xs ! j"
    and "\<forall>j. i \<le> j \<and> j < length xs - 1 \<longrightarrow> (take i xs @ drop (i + 1) xs) ! j = xs ! (j + 1)"
  using assms by (auto simp: nth_append min_def)

text \<open>
  C6, amended. For a valid index, \<open>delete_playlist\<close> succeeds and removes exactly the
  playlist at that index: the playlists before it stay where they are and those after
  it move down by one place, in order. The file of the deleted playlist is gone, unless
  its path is the path of the index, which is written afterwards. The file of every
  other playlist is as before when its path is neither the path of the deleted
  playlist nor the path of the index.
\<close>

theorem deletion_reindexing:
  "0 \<le> idx \<and> idx < playlist_count st \<longrightarrow>
     (case delete_playlist st fs idx of
        (ok, st', fs') \<Rightarrow>
          ok
          \<and> playlists st' = take (nat idx) (playlists st) @ drop (nat idx + 1) (playlists st)
          \<and> length (playlists st') = length (playlists st) - 1
          \<and> (\<forall>j < nat idx. playlists st' ! j = playlists st ! j)
          \<and> (\<forall>j. nat idx \<le> j \<and> j < length (playlists st) - 1
                \<longrightarrow> playlists st' ! j = playlists st ! (j + 1))
          \<and> (playlists_index st \<noteq> playlist_path st (playlists st ! nat idx)
                \<longrightarrow> files fs' (playlist_path st (playlists st ! nat idx)) = None)
          \<and> (\<forall>k < length (playlists st).
                playlist_path st (playlists st ! k) \<noteq> playlist_path st (playlists st ! nat idx)
                \<and> playlist_path st (playlists st ! k) \<noteq> playlists_index st
                \<longrightarrow> files fs' (playlist_path st (playlists st ! k))
                    = files fs (playlist_path st (playlists st ! k))))"
proof
  assume a: "0 \<le> idx \<and> idx < playlist_count st"
  then have i: "nat idx < length (playlists st)" by (auto simp: playlist_count_def nat_less_iff)
  from a delete_playlist_reindex[of idx st fs]
  obtain fs' where d: "delete_playlist st fs idx
           = (True, st\<lparr>playlists := take (nat idx) (playlists st) @ drop (nat idx + 1) (playlists st)\<rparr>, fs')"
    and f: "playlists_index st \<noteq> playlist_path st (playlists st ! nat idx)
              \<longrightarrow> files fs' (playlist_path st (playlists st ! nat idx)) = None"
    and g: "\<forall>path. path \<noteq> playlist_path st (playlists st ! nat idx) \<and> path \<noteq> playlists_index st
              \<longrightarrow> files fs' path = files fs path"
    by blast
  show "case delete_playlist st fs idx of
        (ok, st', fs') \<Rightarrow>
          ok
          \<and> playlists st' = take (nat idx) (playlists st) @ drop (nat idx + 1) (playlists st)
          \<and> length (playlists st') = length (playlists st) - 1
          \<and> (\<forall>j < nat idx. playlists st' ! j = playlists st ! j)
          \<and> (\<forall>j. nat idx \<le> j \<and> j < length (playlists st) - 1
                \<longrightarrow> playlists st' ! j = playlists st ! (j + 1))
          \<and> (playlists_index st \<noteq> playlist_path st (playlists st ! nat idx)
                \<longrightarrow> files fs' (playlist_path st (playlists st ! nat idx)) = None)
          \<and> (\<forall>k < length (playlists st).
                playlist_path st (playlists st ! k) \<noteq> playlist_path st (playlists st ! nat idx)
                \<and> playlist_path st (playlists st ! k) \<noteq> playlists_index st
                \<longrightarrow> files fs' (playlist_path st (playlists st ! k))
                    = files fs (playlist_path st (playlists st ! k)))"
    unfolding d using remove_nth[OF i] f g by simp
qed

theorem deletion_reindexing_witness:
  "(case delete_playlist abc_state abc_fs 1 of
      (ok, st', fs') \<Rightarrow>
        ok \<and> map name (playlists st') = [''a'', ''c'']
        \<and> files fs' ''/h/.shellbeats/playlists/b.json'' = None
        \<and> files fs' ''/h/.shellbeats/playlists/a.json'' = Some (playlist_text (playlists abc_state ! 0))
        \<and> files fs' ''/h/.shellbeats/playlists/c.json'' = Some (playlist_text (playlists abc_state ! 2)))"
proof -
  have p: "playlist_path abc_state (playlists abc_state ! 0) = ''/h/.shellbeats/playlists/a.json''"
    "playlist_path abc_state (playlists abc_state ! 1) = ''/h/.shellbeats/playlists/b.json''"
    "playlist_path abc_state (playlists abc_state ! 2) = ''/h/.shellbeats/playlists/c.json''"
    "playlists_index abc_state = ''/h/.shellbeats/playlists.json''"
    "length (playlists abc_state) = 3"
    "playlist_path abc_state (playlists abc_state ! Suc 0) = ''/h/.shellbeats/playlists/b.json''"
    by (simp_all add: abc_state_def init_state_def playlist_path_def snprintf_def)
  have q: "files abc_fs ''/h/.shellbeats/playlists/a.json'' = Some (playlist_text (playlists abc_state ! 0))"
    "files abc_fs ''/h/.shellbeats/playlists/c.json'' = Some (playlist_text (playlists abc_state ! 2))"
    by (simp_all add: abc_fs_def)
  have n: "map name (take (Suc 0) (playlists abc_state) @ drop (Suc (Suc 0)) (playlists abc_state))
           = [''a'', ''c'']"
    by (simp add: abc_state_def)
  have h: "0 \<le> (1::int) \<and> 1 < playlist_count abc_state" by (simp add: playlist_count_def p)
  obtain ok st' fs' where d: "delete_playlist abc_state abc_fs 1 = (ok, st', fs')"
    by (cases "delete_playlist abc_state abc_fs 1") auto
  from deletion_reindexing[of 1 abc_state abc_fs] h d
  have r: "ok" "playlists st' = take (Suc 0) (playlists abc_state) @ drop (Suc (Suc 0)) (playlists abc_state)"
    "files fs' ''/h/.shellbeats/playlists/b.json'' = None"
    "\<forall>k < 3. playlist_path abc_state (playlists abc_state ! k) \<noteq> ''/h/.shellbeats/playlists/b.json''
         \<and> playlist_path abc_state (playlists abc_state ! k) \<noteq> ''/h/.shellbeats/playlists.json''
         \<longrightarrow> files fs' (playlist_path abc_state (playlists abc_state ! k))
                    = files abc_fs (playlist_path abc_state (playlists abc_state ! k))"
    by (simp_all add: p)
  from r(4) have "files fs' ''/h/.shellbeats/playlists/a.json'' = files abc_fs ''/h/.shellbeats/playlists/a.json''"
    "files fs' ''/h/.shellbeats/playlists/c.json'' = files abc_fs ''/h/.shellbeats/playlists/c.json''"
    using p(1,3) by (auto dest: spec[of _ 0] spec[of _ 2])
  then show ?thesis unfolding d using r(1,2,3) n q by simp
qed

text \<open>
  C6 as stated fails when two playlists share a file. In the library that the three
  calls of C9 leave, the playlists at positions 1 and 2 share the file \<open>2_a.json\<close>.
  Deleting the playlist at position 2 succeeds and keeps the other two playlists in
  order, but it removes the file of the playlist at position 1, which is still in the
  library.
\<close>

theorem delete_shared_file_counterexample:
  "(case colliding_library of
      (st, fs) \<Rightarrow>
        map name (playlists st) = [''a'', ''2_a'', ''a!'']
        \<and> files fs (playlist_path st (playlists st ! 1)) \<noteq> None
        \<and> (case delete_playlist st fs 2 of
             (ok, st', fs') \<Rightarrow>
               ok \<and> playlists st' = [playlists st ! 0, playlists st ! 1]
               \<and> files fs' (playlist_path st' (playlists st' ! 1)) = None))"
  by code_simp
section \<open>End of track\<close>

lemma strstr_sublist: "strstr s pat \<noteq> None \<longleftrightarrow> sublist pat s"
  by (induction s) (auto simp: sublist_Cons_right)



lemma drain_all: "drain p = p\<lparr>incoming := []\<rparr>"
proof (induction p rule: drain.induct)
  case (1 p)
  show ?case
  proof (cases "incoming p = []")
    case True
    then show ?thesis by (subst drain.simps) (simp add: read_channel_def)
  next
    case False
    then have r: "read_channel p 4096 = (Data (take 4096 (incoming p)), p\<lparr>incoming := drop 4096 (incoming p)\<rparr>)"
      by (simp add: read_channel_def)
    have "drain (p\<lparr>incoming := drop 4096 (incoming p)\<rparr>) = p\<lparr>incoming := drop 4096 (incoming p)\<rparr>\<lparr>incoming := []\<rparr>"
      using "1.IH"[OF r[symmetric] refl] .
    then show ?thesis using r by (subst drain.simps) simp
  qed
qed

text \<open>A text without a newline lies in a piece of data when it lies in one of its lines.\<close>

lemma events_hd: "events s \<noteq> [] \<and> hd (events s) = takeWhile (\<lambda>c. c \<noteq> nl) s"
  by (induction s) (auto split: list.splits)

lemma prefix_line:
  "nl \<notin> set pat \<Longrightarrow> prefix pat (takeWhile (\<lambda>c. c \<noteq> nl) s) = prefix pat s"
proof (induction pat arbitrary: s)
  case Nil
  show ?case by simp
next
  case (Cons a pat)
  then show ?case by (cases s) auto
qed

lemma sublist_events:
  assumes "nl \<notin> set pat"
  shows "sublist pat s \<longleftrightarrow> (\<exists>e \<in> set (events s). sublist pat e)"
proof (induction s)
  case Nil
  show ?case by simp
next
  case (Cons c s)
  show ?case
  proof (cases "c = nl")
    case True
    have "prefix pat (nl # s) \<longleftrightarrow> pat = []" using assms by (cases pat) auto
    then show ?thesis using True Cons by (auto simp: sublist_Cons_right)
  next
    case False
    obtain e es where e: "events s = e # es" using events_hd[of s] by (cases "events s") auto
    then have h: "e = takeWhile (\<lambda>c. c \<noteq> nl) s" using events_hd[of s] by simp
    have "prefix pat (c # e) = prefix pat (c # s)"
      using prefix_line[OF assms, of "c # s"] False h by simp
    then show ?thesis using False Cons e by (auto simp: sublist_Cons_right)
  qed
qed

lemma strstr_events:
  assumes "nl \<notin> set pat"
  shows "strstr s pat \<noteq> None \<longleftrightarrow> (\<exists>e \<in> set (events s). strstr e pat \<noteq> None)"
proof -
  have "strstr s pat \<noteq> None \<longleftrightarrow> sublist pat s" by (rule strstr_sublist)
  also have "\<dots> \<longleftrightarrow> (\<exists>e \<in> set (events s). sublist pat e)" by (rule sublist_events[OF assms])
  also have "\<dots> \<longleftrightarrow> (\<exists>e \<in> set (events s). strstr e pat \<noteq> None)"
    unfolding strstr_sublist ..
  finally show ?thesis .
qed

lemma marker_lines: "nl \<notin> set end_file_marker" "nl \<notin> set eof_marker"
  by (simp_all add: end_file_marker_def eof_marker_def)

lemma eof_event_markers:
  assumes "list_ex eof_event (events s)"
  shows "strstr s end_file_marker \<noteq> None \<and> strstr s eof_marker \<noteq> None"
proof -
  from assms obtain e where e: "e \<in> set (events s)" "strstr e end_file_marker \<noteq> None"
    "strstr e eof_marker \<noteq> None"
    by (auto simp: list_ex_iff eof_event_def)
  show ?thesis
    using e strstr_events[OF marker_lines(1), of s] strstr_events[OF marker_lines(2), of s]
    by blast
qed

lemma check_track_end_true:
  "fst (mpv_check_track_end again p)
   \<longleftrightarrow> mpv_ipc_fd p \<ge> 0 \<and> incoming p \<noteq> []
       \<and> strstr (cstr (take 4095 (incoming p))) end_file_marker \<noteq> None
       \<and> strstr (cstr (take 4095 (incoming p))) eof_marker \<noteq> None"
  by (auto simp: mpv_check_track_end_def read_channel_def)

lemma eof_event_seen:
  assumes "mpv_ipc_fd p \<ge> 0" "list_ex eof_event (events (cstr (take 4095 (incoming p))))"
  shows "mpv_check_track_end again p = (True, p\<lparr>incoming := drop 4095 (incoming p)\<rparr>)"
proof -
  have m: "strstr (cstr (take 4095 (incoming p))) end_file_marker \<noteq> None"
    "strstr (cstr (take 4095 (incoming p))) eof_marker \<noteq> None"
    using eof_event_markers[OF assms(2)] by simp_all
  then have "incoming p \<noteq> []" by (auto simp: cstr_def end_file_marker_def)
  then show ?thesis using assms(1) m by (simp add: mpv_check_track_end_def read_channel_def)
qed



lemma absent_char: "c \<in> set pat \<Longrightarrow> c \<notin> set s \<Longrightarrow> strstr s pat = None"
proof (rule ccontr)
  assume c: "c \<in> set pat" "c \<notin> set s" and "strstr s pat \<noteq> None"
  then have "sublist pat s" using strstr_sublist by blast
  then have "set pat \<subseteq> set s" by (rule set_mono_sublist)
  with c show False by blast
qed


lemma ticks_length: "length (concat (replicate 241 tick_line)) = 4097"
  by (simp add: length_concat tick_line_def sum_list_replicate)


section \<open>Next and previous\<close>

text \<open>
  C3. \<open>play_next\<close> at the last index of the source, whether that is a playlist of the
  library or the search results, and \<open>play_prev\<close> at index 0 leave the whole state and
  the player as they were.
\<close>

theorem advance_bounds:
  "(playing_from_playlist st \<and> 0 \<le> playing_playlist_idx st
      \<and> playing_playlist_idx st < playlist_count st
      \<and> playing_index st
          = int (length (items (playlists st ! nat (playing_playlist_idx st)))) - 1
    \<longrightarrow> play_next st p now = (st, p))
   \<and> (\<not> playing_from_playlist st \<and> playing_index st = search_count st - 1
    \<longrightarrow> play_next st p now = (st, p))
   \<and> (playing_index st = 0 \<longrightarrow> play_prev st p now = (st, p))"
  by (auto simp: play_next_def play_prev_def slot_count_def playlist_count_def Let_def)

theorem advance_bounds_witness:
  "play_next playlist_state idle_player 1010 = (playlist_state, idle_player)
   \<and> play_next search_state idle_player 1010 = (search_state, idle_player)
   \<and> play_prev playlist_state idle_player 1010 = (playlist_state, idle_player)
   \<and> play_prev (search_state\<lparr>playing_index := 0\<rparr>) idle_player 1010
       = (search_state\<lparr>playing_index := 0\<rparr>, idle_player)"
  using advance_bounds[of playlist_state idle_player 1010]
    advance_bounds[of search_state idle_player 1010]
    advance_bounds[of "search_state\<lparr>playing_index := 0\<rparr>" idle_player 1010]
  by (simp add: playlist_state_def search_state_def road_trip_state_def init_state_def
        playlist_count_def search_count_def)

section \<open>Grace period\<close>

lemma time_reading_grace:
  "polled_at - started_at \<le> 2000 \<Longrightarrow> time_reading polled_at - time_reading started_at < 3"
  "polled_at - started_at \<ge> 3000 \<Longrightarrow> time_reading polled_at - time_reading started_at \<ge> 3"
proof -
  assume "polled_at - started_at \<le> 2000"
  then have "polled_at \<le> started_at + 2 * 1000" by simp
  then have "polled_at div 1000 \<le> (started_at + 2 * 1000) div 1000"
    by (rule zdiv_mono1) simp
  also have "\<dots> = started_at div 1000 + 2" by simp
  finally show "time_reading polled_at - time_reading started_at < 3"
    by (simp add: time_reading_def)
next
  assume "polled_at - started_at \<ge> 3000"
  then have "started_at + 3 * 1000 \<le> polled_at" by simp
  then have "(started_at + 3 * 1000) div 1000 \<le> polled_at div 1000"
    by (rule zdiv_mono1) simp
  moreover have "(started_at + 3 * 1000) div 1000 = started_at div 1000 + 3" by simp
  ultimately show "time_reading polled_at - time_reading started_at \<ge> 3"
    by (simp add: time_reading_def)
qed

lemma pass_in_grace:
  assumes "playing_index st \<ge> 0" "mpv_ipc_fd p \<ge> 0" "now - playback_started st < 3"
  shows "auto_advance again st p now later = (st, p\<lparr>incoming := []\<rparr>)"
  using assms by (simp add: auto_advance_def drain_all)

lemma pass_after_grace:
  assumes "playing_index st \<ge> 0" "mpv_ipc_fd p \<ge> 0" "now - playback_started st \<ge> 3"
    "list_ex eof_event (events (cstr (take 4095 (incoming p))))"
  shows "auto_advance again st p now later
         = play_next st (p\<lparr>incoming := drop 4095 (incoming p)\<rparr>) later"
  using assms eof_event_seen[OF assms(2,4), of again] by (simp add: auto_advance_def)

text \<open>
  C2, amended. While a track is playing on a connected channel, one pass of the loop
  compares two readings of \<open>time\<close>, which counts whole seconds. When the readings
  differ by less than 3, the pass reads and discards everything buffered and leaves the
  session as it was. When they differ by 3 or more and the data of the one read (at
  most 4095 bytes, up to the first NUL byte) holds an \<open>end-file\<close> event whose reason
  is \<open>eof\<close>, the pass is exactly one \<open>play_next\<close>, after the bytes read are consumed.
  In real time: a track started at most 2 seconds ago is in the first case, a track
  started at least 3 seconds ago is in the second.
\<close>

theorem grace_period:
  "(playing_index st \<ge> 0 \<and> mpv_ipc_fd p \<ge> 0 \<and> now - playback_started st < 3
    \<longrightarrow> auto_advance again st p now later = (st, p\<lparr>incoming := []\<rparr>))
   \<and> (playing_index st \<ge> 0 \<and> mpv_ipc_fd p \<ge> 0 \<and> now - playback_started st \<ge> 3
      \<and> list_ex eof_event (events (cstr (take 4095 (incoming p))))
    \<longrightarrow> auto_advance again st p now later
        = play_next st (p\<lparr>incoming := drop 4095 (incoming p)\<rparr>) later)
   \<and> (playing_index st \<ge> 0 \<and> mpv_ipc_fd p \<ge> 0
      \<and> playback_started st = time_reading started_at \<and> polled_at - started_at \<le> 2000
    \<longrightarrow> auto_advance again st p (time_reading polled_at) later = (st, p\<lparr>incoming := []\<rparr>))
   \<and> (playing_index st \<ge> 0 \<and> mpv_ipc_fd p \<ge> 0
      \<and> playback_started st = time_reading started_at \<and> polled_at - started_at \<ge> 3000
      \<and> list_ex eof_event (events (cstr (take 4095 (incoming p))))
    \<longrightarrow> auto_advance again st p (time_reading polled_at) later
        = play_next st (p\<lparr>incoming := drop 4095 (incoming p)\<rparr>) later)"
proof (intro conjI impI)
  assume "playing_index st \<ge> 0 \<and> mpv_ipc_fd p \<ge> 0 \<and> now - playback_started st < 3"
  then show "auto_advance again st p now later = (st, p\<lparr>incoming := []\<rparr>)"
    using pass_in_grace by blast
next
  assume "playing_index st \<ge> 0 \<and> mpv_ipc_fd p \<ge> 0 \<and> now - playback_started st \<ge> 3
      \<and> list_ex eof_event (events (cstr (take 4095 (incoming p))))"
  then show "auto_advance again st p now later
        = play_next st (p\<lparr>incoming := drop 4095 (incoming p)\<rparr>) later"
    using pass_after_grace by blast
next
  assume a: "playing_index st \<ge> 0 \<and> mpv_ipc_fd p \<ge> 0
      \<and> playback_started st = time_reading started_at \<and> polled_at - started_at \<le> 2000"
  then have "time_reading polled_at - playback_started st < 3" using time_reading_grace(1) by simp
  then show "auto_advance again st p (time_reading polled_at) later = (st, p\<lparr>incoming := []\<rparr>)"
    using a pass_in_grace by blast
next
  assume a: "playing_index st \<ge> 0 \<and> mpv_ipc_fd p \<ge> 0
      \<and> playback_started st = time_reading started_at \<and> polled_at - started_at \<ge> 3000
      \<and> list_ex eof_event (events (cstr (take 4095 (incoming p))))"
  then have "time_reading polled_at - playback_started st \<ge> 3" using time_reading_grace(2) by simp
  then show "auto_advance again st p (time_reading polled_at) later
        = play_next st (p\<lparr>incoming := drop 4095 (incoming p)\<rparr>) later"
    using a pass_after_grace by blast
qed

theorem grace_period_witness:
  "auto_advance False first_result_state ended_player 1002 1002
     = (first_result_state, idle_player)
   \<and> auto_advance False first_result_state ended_player 1003 1003
     = play_next first_result_state idle_player 1003
   \<and> auto_advance False first_result_state ended_player (time_reading 1002000) 1002
     = (first_result_state, idle_player)
   \<and> auto_advance False first_result_state ended_player (time_reading 1003000) 1003
     = play_next first_result_state idle_player 1003"
proof -
  have e: "list_ex eof_event (events (cstr (take 4095 (incoming ended_player))))"
    by (simp add: ended_player_def idle_player_def end_file_event_def reason_event_def
          end_file_marker_def eof_marker_def eof_event_def cstr_def)
  have s: "playing_index first_result_state = 0" "playback_started first_result_state = 1000"
    by (simp_all add: first_result_state_def search_state_def init_state_def)
  have p: "mpv_ipc_fd ended_player = 3" "ended_player\<lparr>incoming := []\<rparr> = idle_player"
    "ended_player\<lparr>incoming := drop 4095 (incoming ended_player)\<rparr> = idle_player"
    by (simp_all add: ended_player_def idle_player_def end_file_event_def reason_event_def)
  have t: "time_reading 1000000 = 1000" "time_reading 1002000 = 1002"
    "time_reading 1003000 = 1003"
    by (simp_all add: time_reading_def)
  show ?thesis
    using grace_period[where st = first_result_state and p = ended_player and now = 1002
        and later = 1002 and again = False and started_at = 1000000 and polled_at = 1002000]
      grace_period[where st = first_result_state and p = ended_player and now = 1003
        and later = 1003 and again = False and started_at = 1000000 and polled_at = 1003000]
    by (simp add: e s p t)
qed

lemma busy_chunk: "strstr (cstr (take 4095 (incoming busy_player))) eof_marker = None"
proof (rule absent_char[of "CHR ''r''"])
  show "CHR ''r'' \<in> set eof_marker" by (simp add: eof_marker_def)
next
  have "take 4095 (incoming busy_player) = take 4095 (concat (replicate 241 tick_line))"
    using ticks_length by (simp add: busy_player_def)
  then have "set (cstr (take 4095 (incoming busy_player))) \<subseteq> set (concat (replicate 241 tick_line))"
    unfolding cstr_def by (metis set_takeWhileD set_take_subset subsetI subset_trans)
  also have "\<dots> \<subseteq> set tick_line" by auto
  finally show "CHR ''r'' \<notin> set (cstr (take 4095 (incoming busy_player)))"
    by (auto simp: tick_line_def)
qed

lemma busy_buffer:
  "strstr (incoming busy_player) end_file_marker \<noteq> None
   \<and> strstr (incoming busy_player) eof_marker \<noteq> None"
proof -
  have e: "end_file_event ''eof'' = ''{'' @ end_file_marker @ '','' @ eof_marker @ ''}'' @ [nl]"
    by (simp add: end_file_event_def reason_event_def end_file_marker_def eof_marker_def)
  have "sublist end_file_marker (incoming busy_player)"
    unfolding sublist_def busy_player_def e
    by (rule exI[of _ "concat (replicate 241 tick_line) @ ''{''"],
        rule exI[of _ "'','' @ eof_marker @ ''}'' @ [nl]"]) simp
  moreover have "sublist eof_marker (incoming busy_player)"
    unfolding sublist_def busy_player_def e
    by (rule exI[of _ "concat (replicate 241 tick_line) @ ''{'' @ end_file_marker @ '',''"],
        rule exI[of _ "''}'' @ [nl]"]) simp
  ultimately show ?thesis using strstr_sublist by blast
qed

text \<open>
  C2 as stated fails in three ways. The event lies after the first 4095 buffered bytes:
  the pass reads those bytes only, finds no marker and does not advance. The event
  lies after a NUL byte: the search stops at that byte, and the pass does not advance.
  The track was started 2.1 seconds ago, 10.9 seconds after a full minute: the clock
  showed 10 then and shows 13 now, and the pass advances.
\<close>

theorem grace_period_counterexample:
  "playing_index first_result_state = 0
   \<and> mpv_ipc_fd busy_player = 3
   \<and> 1010 - playback_started first_result_state \<ge> 3
   \<and> strstr (incoming busy_player) end_file_marker \<noteq> None
   \<and> strstr (incoming busy_player) eof_marker \<noteq> None
   \<and> fst (auto_advance False first_result_state busy_player 1010 1010) = first_result_state
   \<and> playing_index (fst (play_next first_result_state idle_player 1010)) = 1
   \<and> mpv_ipc_fd nul_player = 3
   \<and> list_ex eof_event (events (take 4095 (incoming nul_player)))
   \<and> fst (auto_advance False first_result_state nul_player 1010 1010) = first_result_state
   \<and> playing_index late_start_state = 0
   \<and> playback_started late_start_state = time_reading 10900
   \<and> (13000 :: int) - 10900 < 3000
   \<and> playing_index (fst (auto_advance False late_start_state ended_player
                             (time_reading 13000) (time_reading 13000))) = 1"
proof -
  have s: "playing_index first_result_state = 0" "playback_started first_result_state = 1000"
    by (simp_all add: first_result_state_def search_state_def init_state_def)
  have p: "mpv_ipc_fd busy_player = 3" by (simp add: busy_player_def idle_player_def)
  have "\<not> fst (mpv_check_track_end False busy_player)"
    using busy_chunk p by (auto simp: mpv_check_track_end_def read_channel_def)
  then have a: "fst (auto_advance False first_result_state busy_player 1010 1010)
                = first_result_state"
    using s p by (auto simp: auto_advance_def split: prod.split bool.split)
  have n: "playing_index (fst (play_next first_result_state idle_player 1010)) = 1"
    by (simp add: play_next_def first_result_state_def search_state_def init_state_def
          search_count_def play_search_result_def numbered_song_def Let_def)
  have q: "mpv_ipc_fd nul_player = 3" by (simp add: nul_player_def idle_player_def)
  have e: "list_ex eof_event (events (take 4095 (incoming nul_player)))"
    by (simp add: nul_player_def idle_player_def end_file_event_def reason_event_def
          end_file_marker_def eof_marker_def eof_event_def)
  have "\<not> fst (mpv_check_track_end False nul_player)"
    unfolding check_track_end_true
    by (simp add: nul_player_def idle_player_def cstr_def end_file_marker_def)
  then have b: "fst (auto_advance False first_result_state nul_player 1010 1010)
                = first_result_state"
    using s q by (auto simp: auto_advance_def split: prod.split bool.split)
  have l: "playing_index late_start_state = 0" "playback_started late_start_state = 10"
    by (simp_all add: late_start_state_def first_result_state_def search_state_def
          init_state_def time_reading_def)
  have t: "time_reading 10900 = 10" "time_reading 13000 = 13" by (simp_all add: time_reading_def)
  have "list_ex eof_event (events (cstr (take 4095 (incoming ended_player))))"
    by (simp add: ended_player_def idle_player_def end_file_event_def reason_event_def
          end_file_marker_def eof_marker_def eof_event_def cstr_def)
  then have "auto_advance False late_start_state ended_player 13 13
             = play_next late_start_state idle_player 13"
    using pass_after_grace[of late_start_state ended_player 13 False 13] l
    by (simp add: ended_player_def idle_player_def end_file_event_def reason_event_def)
  moreover have "playing_index (fst (play_next late_start_state idle_player 13)) = 1"
    by (simp add: play_next_def late_start_state_def first_result_state_def search_state_def
          init_state_def search_count_def play_search_result_def numbered_song_def Let_def)
  ultimately have c: "playing_index (fst (auto_advance False late_start_state ended_player
                             (time_reading 13000) (time_reading 13000))) = 1"
    using t by simp
  show ?thesis using s p a n q e b l t c busy_buffer by simp
qed

end
